theory Spec2Isabelle
  imports Complex_Main
begin

section \<open>Interval overlap (osw\_utils/evaluation\_parser\_cluster.py)\<close>

text \<open>
  \<^verbatim>\<open>overlaps(pred_min, pred_max, target_min, target_max)\<close> is a disjunction of four
  cases, each a conjunction of (chained) comparisons. A chained comparison
  \<^verbatim>\<open>a <= b <= c\<close> is \<^verbatim>\<open>a <= b and b <= c\<close>. The arguments are numbers; only their
  order is used, so the model is stated over any linear order.
\<close>

definition overlaps :: "'a::linorder \<Rightarrow> 'a \<Rightarrow> 'a \<Rightarrow> 'a \<Rightarrow> bool" where
  "overlaps pred_min pred_max target_min target_max =
     (if (pred_min \<le> target_min \<and> (target_min \<le> pred_max \<and> pred_max \<le> target_max)) \<or>
         (pred_min \<le> target_min \<and> pred_max \<ge> target_max) \<or>
         ((target_min \<le> pred_min \<and> pred_min \<le> target_max) \<and> pred_max \<le> target_max) \<or>
         ((target_min \<le> pred_min \<and> pred_min \<le> target_max) \<and> pred_max \<ge> target_max)
      then True
      else False)"

section \<open>Chromatogram labels and bounding box (utils/osw\_parser.py)\<close>

text \<open>
  The bounds \<^verbatim>\<open>left_width\<close> and \<^verbatim>\<open>right_width\<close> are either \<^verbatim>\<open>None\<close> or a number
  (the caller passes \<^verbatim>\<open>None\<close> when no peak group was found). Python's truth test
  takes \<^verbatim>\<open>None\<close> and the number zero as false.
\<close>

definition truthy :: "real option \<Rightarrow> bool" where
  "truthy v = (case v of None \<Rightarrow> False | Some x \<Rightarrow> x \<noteq> 0)"

text \<open>
  The loop \<^verbatim>\<open>for time in times\<close> appends one label per time; the accumulator is the
  list \<^verbatim>\<open>row_labels\<close> built so far (the argument \<^verbatim>\<open>times\<close> is written \<open>ts\<close>,
  since \<open>times\<close> is HOL's multiplication). The comparison with the bounds is reached only
  when both are truthy, hence numbers.
\<close>

fun labels_loop :: "real option \<Rightarrow> real option \<Rightarrow> real list \<Rightarrow> int list \<Rightarrow> int list" where
  "labels_loop left_width right_width [] row_labels = row_labels"
| "labels_loop left_width right_width (time # rest) row_labels =
     labels_loop left_width right_width rest
       (if truthy left_width \<and> truthy right_width then
          (if the left_width \<le> time \<and> time \<le> the right_width
           then row_labels @ [1]
           else row_labels @ [0])
        else row_labels @ [0])"

text \<open>\<^verbatim>\<open>np.where(row_labels == 1)[0]\<close>: the indices holding 1, in increasing order.\<close>

definition where_eq_1 :: "int list \<Rightarrow> nat list" where
  "where_eq_1 row_labels = filter (\<lambda>i. row_labels ! i = 1) [0..<length row_labels]"

definition get_chromatogram_labels_and_bbox ::
  "real option \<Rightarrow> real option \<Rightarrow> real list \<Rightarrow> int list \<times> nat option \<times> nat option" where
  "get_chromatogram_labels_and_bbox left_width right_width ts =
     (let row_labels = labels_loop left_width right_width ts [];
          label_idxs = where_eq_1 row_labels
      in if length label_idxs > 0
         then (row_labels, Some (hd label_idxs), Some (last label_idxs))
         else (row_labels, None, None))"

text \<open>
  The labelling rule in the words of the specification: a time lies in the peak when both
  bounds are set (truthy) and the time is between them, bounds included.
\<close>

fun in_peak :: "real option \<Rightarrow> real option \<Rightarrow> real \<Rightarrow> bool" where
  "in_peak (Some l) (Some r) t = (l \<noteq> 0 \<and> r \<noteq> 0 \<and> l \<le> t \<and> t \<le> r)"
| "in_peak _ _ t = False"

section \<open>Loss computation (models/rpn1d/region\_proposal\_network\_1d.py)\<close>

text \<open>
  The tensors hold 32-bit floating-point numbers. A tensor element is a number, an
  infinity or not-a-number, and every arithmetic operation on elements follows the
  floating-point rules for these: a result too large for the format is an infinity, and
  \<open>\<infinity> - \<infinity>\<close> and \<open>\<infinity> \<cdot> 0\<close> are not-a-number. Within the range of the format the
  operations are exact here: rounding, and underflow towards zero, are outside the model.
  Every exception is a value of the type \<open>error\<close>.
\<close>

datatype error =
    AssertionError string
  | NotImplementedError
  | NameError string
  | FileNotFoundError
  | RuntimeError
  | IndexError
  | ValueError
  | ZeroDivisionError
  | OverflowError

datatype scalar = Fin real | PInf | NInf | NaN

text \<open>
  The least magnitude that rounds to an infinity: half a unit in the last place above the
  largest number of the format (24 significant bits and largest exponent 127 for a tensor
  element, 53 and 1023 for a Python float).
\<close>

definition f32_overflow :: real where
  "f32_overflow = (2 - 1 / 2 ^ 24) * 2 ^ 127"

definition f64_overflow :: real where
  "f64_overflow = (2 - 1 / 2 ^ 53) * 2 ^ 1023"

definition rnd32 :: "real \<Rightarrow> scalar" where
  "rnd32 x = (if f32_overflow \<le> x then PInf else if x \<le> - f32_overflow then NInf else Fin x)"

definition rnd64 :: "real \<Rightarrow> scalar" where
  "rnd64 x = (if f64_overflow \<le> x then PInf else if x \<le> - f64_overflow then NInf else Fin x)"

text \<open>A Python float that meets a tensor is converted to the tensor's format.\<close>

fun to32 :: "scalar \<Rightarrow> scalar" where
  "to32 (Fin x) = rnd32 x"
| "to32 s = s"

fun fneg :: "scalar \<Rightarrow> scalar" where
  "fneg (Fin x) = Fin (- x)"
| "fneg PInf = NInf"
| "fneg NInf = PInf"
| "fneg NaN = NaN"

fun fabs :: "scalar \<Rightarrow> scalar" where
  "fabs (Fin x) = Fin \<bar>x\<bar>"
| "fabs PInf = PInf"
| "fabs NInf = PInf"
| "fabs NaN = NaN"

fun fadd :: "scalar \<Rightarrow> scalar \<Rightarrow> scalar" where
  "fadd (Fin x) (Fin y) = rnd32 (x + y)"
| "fadd NaN b = NaN"
| "fadd a NaN = NaN"
| "fadd PInf NInf = NaN"
| "fadd NInf PInf = NaN"
| "fadd PInf b = PInf"
| "fadd NInf b = NInf"
| "fadd a PInf = PInf"
| "fadd a NInf = NInf"

definition fsub :: "scalar \<Rightarrow> scalar \<Rightarrow> scalar" where
  "fsub a b = fadd a (fneg b)"

text \<open>The product of an infinity and a number has the sign of the two; with zero it is not-a-number.\<close>

definition inf_times :: "bool \<Rightarrow> real \<Rightarrow> scalar" where
  "inf_times positive x =
     (if x = 0 then NaN else if (0 < x) = positive then PInf else NInf)"

fun fmul :: "scalar \<Rightarrow> scalar \<Rightarrow> scalar" where
  "fmul (Fin x) (Fin y) = rnd32 (x * y)"
| "fmul NaN b = NaN"
| "fmul a NaN = NaN"
| "fmul PInf (Fin y) = inf_times True y"
| "fmul NInf (Fin y) = inf_times False y"
| "fmul (Fin x) PInf = inf_times True x"
| "fmul (Fin x) NInf = inf_times False x"
| "fmul PInf PInf = PInf"
| "fmul NInf NInf = PInf"
| "fmul PInf NInf = NInf"
| "fmul NInf PInf = NInf"

text \<open>\<^verbatim>\<open>a < b\<close>: false as soon as one side is not-a-number.\<close>

fun flt :: "scalar \<Rightarrow> scalar \<Rightarrow> bool" where
  "flt (Fin x) (Fin y) = (x < y)"
| "flt NaN b = False"
| "flt a NaN = False"
| "flt a NInf = False"
| "flt PInf b = False"
| "flt NInf b = True"
| "flt a PInf = True"

text \<open>
  \<^verbatim>\<open>t.sum()\<close> over a list of elements, accumulated from the left, and \<^verbatim>\<open>t.mean()\<close>, the sum
  divided by the number of elements: \<open>0 / 0\<close>, the mean of no element, is not-a-number.
  The count is far below the range of the format, so the quotient of a number never
  overflows.
\<close>

definition fsum :: "scalar list \<Rightarrow> scalar" where
  "fsum xs = foldl fadd (Fin 0) xs"

fun fdiv_count :: "scalar \<Rightarrow> nat \<Rightarrow> scalar" where
  "fdiv_count (Fin s) n = (if n = 0 then inf_times True s else Fin (s / real n))"
| "fdiv_count PInf n = PInf"
| "fdiv_count NInf n = NInf"
| "fdiv_count NaN n = NaN"

definition fmean :: "scalar list \<Rightarrow> scalar" where
  "fmean xs = fdiv_count (fsum xs) (length xs)"

subsection \<open>Python floats\<close>

text \<open>
  \<^verbatim>\<open>sigma ** 2\<close> on a Python float raises \<^verbatim>\<open>OverflowError\<close> when the square is too large
  for a float, and is \<open>0.0\<close> when the square is too small to be told from zero (at most
  \<open>1 / 2 ^ 1075\<close>, half the least positive float). A division of floats raises
  \<^verbatim>\<open>ZeroDivisionError\<close> on a zero divisor and otherwise overflows to an infinity silently.
\<close>

definition py_square :: "real \<Rightarrow> error + real" where
  "py_square sigma =
     (if f64_overflow \<le> sigma ^ 2 then Inl OverflowError
      else if sigma ^ 2 \<le> 1 / 2 ^ 1075 then Inr 0
      else Inr (sigma ^ 2))"

definition py_div :: "real \<Rightarrow> real \<Rightarrow> error + scalar" where
  "py_div a b = (if b = 0 then Inl ZeroDivisionError else Inr (rnd64 (a / b)))"

subsection \<open>Tensors of shape (N, 2)\<close>

text \<open>
  The box tensors reach \<^verbatim>\<open>smooth_l1_loss\<close> after \<^verbatim>\<open>view(-1, 2)\<close>: one row of two
  channels per anchor. \<^verbatim>\<open>view(-1, 2)\<close> fails on an odd number of elements. The
  arguments of the loss functions hold numbers; the tensors computed from them hold
  elements of any kind.
\<close>

type_synonym row = "real \<times> real"

type_synonym frow = "scalar \<times> scalar"

fun view_2 :: "real list \<Rightarrow> error + row list" where
  "view_2 [] = Inr []"
| "view_2 [x] = Inl RuntimeError"
| "view_2 (x # y # zs) =
     (case view_2 zs of Inl e \<Rightarrow> Inl e | Inr rows \<Rightarrow> Inr ((x, y) # rows))"

definition map_row :: "('a \<Rightarrow> 'b) \<Rightarrow> 'a \<times> 'a \<Rightarrow> 'b \<times> 'b" where
  "map_row f r = (f (fst r), f (snd r))"

definition zip_row :: "('a \<Rightarrow> 'b \<Rightarrow> 'c) \<Rightarrow> 'a \<times> 'a \<Rightarrow> 'b \<times> 'b \<Rightarrow> 'c \<times> 'c" where
  "zip_row f r s = (f (fst r) (fst s), f (snd r) (snd s))"

definition elements :: "row list \<Rightarrow> frow list" where
  "elements rows = map (map_row Fin) rows"

text \<open>
  A binary elementwise operation on two (N, 2) and (M, 2) tensors broadcasts the first
  dimension: the row counts must be equal, or one of them 1; otherwise the operation
  raises \<^verbatim>\<open>RuntimeError\<close>.
\<close>

definition broadcast_rows ::
  "(scalar \<Rightarrow> scalar \<Rightarrow> scalar) \<Rightarrow> frow list \<Rightarrow> frow list \<Rightarrow> error + frow list" where
  "broadcast_rows f xs ys =
     (if length xs = length ys then Inr (map2 (zip_row f) xs ys)
      else if length xs = 1 then Inr (map (zip_row f (hd xs)) ys)
      else if length ys = 1 then Inr (map (\<lambda>x. zip_row f x (hd ys)) xs)
      else Inl RuntimeError)"

subsection \<open>Summing over dimensions\<close>

text \<open>
  \<^verbatim>\<open>loss_box.sum(i)\<close> removes dimension \<open>i\<close>, so the loop over \<^verbatim>\<open>dim\<close> takes the
  (N, 2) tensor to a tensor of one or of no dimension. A dimension may be counted from the
  end with a negative number; a dimension the tensor does not have is an
  \<^verbatim>\<open>IndexError\<close>, except that a tensor of no dimension accepts \<open>0\<close> and \<open>-1\<close>.
\<close>

datatype reduced = T2 "frow list" | T1 "scalar list" | T0 scalar

fun sum_dim :: "int \<Rightarrow> reduced \<Rightarrow> error + reduced" where
  "sum_dim i (T2 rows) =
     (if i = 1 \<or> i = - 1 then Inr (T1 (map (\<lambda>r. fadd (fst r) (snd r)) rows))
      else if i = 0 \<or> i = - 2 then Inr (T1 [fsum (map fst rows), fsum (map snd rows)])
      else Inl IndexError)"
| "sum_dim i (T1 xs) =
     (if i = 0 \<or> i = - 1 then Inr (T0 (fsum xs)) else Inl IndexError)"
| "sum_dim i (T0 x) =
     (if i = 0 \<or> i = - 1 then Inr (T0 x) else Inl IndexError)"

text \<open>The loop \<^verbatim>\<open>for i in ...: loss_box = loss_box.sum(i)\<close> over a list of dimensions.\<close>

fun sum_dims :: "int list \<Rightarrow> reduced \<Rightarrow> error + reduced" where
  "sum_dims [] loss_box = Inr loss_box"
| "sum_dims (i # rest) loss_box =
     (case sum_dim i loss_box of
        Inl e \<Rightarrow> Inl e
      | Inr summed \<Rightarrow> sum_dims rest summed)"

text \<open>\<^verbatim>\<open>loss_box.mean()\<close>: the mean of all the elements that are left.\<close>

fun reduced_mean :: "reduced \<Rightarrow> scalar" where
  "reduced_mean (T2 rows) = fmean (concat (map (\<lambda>r. [fst r, snd r]) rows))"
| "reduced_mean (T1 xs) = fmean xs"
| "reduced_mean (T0 x) = x"

subsection \<open>smooth\_l1\_loss\<close>

text \<open>
  \<^verbatim>\<open>smooth_l1_loss\<close>. \<^verbatim>\<open>sigma\<close> is a Python float, and so are \<^verbatim>\<open>sigma_2\<close>,
  \<^verbatim>\<open>1.0 / sigma_2\<close>, \<^verbatim>\<open>sigma_2 / 2.0\<close> and \<^verbatim>\<open>0.5 / sigma_2\<close>; the first division comes
  after the two tensor operations before it and raises \<^verbatim>\<open>ZeroDivisionError\<close> when
  \<^verbatim>\<open>sigma_2\<close> is zero. Both the quadratic and the linear formula are computed for every
  element, and the mask \<^verbatim>\<open>smoothL1_sign\<close> (1.0 or 0.0) multiplies the one and its complement
  the other. \<^verbatim>\<open>dim\<close> is a list of integers, \<^verbatim>\<open>[1]\<close> by default (the value every call in
  the repository uses): \<^verbatim>\<open>sorted(dim, reverse=True)\<close> is the list in decreasing order. (The
  argument is written \<open>dims\<close>, since \<open>dim\<close> is a constant of HOL.)
\<close>

definition mask_of :: "bool \<Rightarrow> scalar" where
  "mask_of b = (if b then Fin 1 else Fin 0)"

definition smooth_l1_loss ::
  "row list \<Rightarrow> row list \<Rightarrow> row list \<Rightarrow> row list \<Rightarrow> real \<Rightarrow> int list
     \<Rightarrow> error + scalar" where
  "smooth_l1_loss bbox_pred bbox_targets bbox_inside_weights bbox_outside_weights sigma dims =
     (case py_square sigma of
        Inl e \<Rightarrow> Inl e
      | Inr sigma_2 \<Rightarrow>
      case broadcast_rows fsub (elements bbox_pred) (elements bbox_targets) of
        Inl e \<Rightarrow> Inl e
      | Inr box_diff \<Rightarrow>
      case broadcast_rows fmul (elements bbox_inside_weights) box_diff of
        Inl e \<Rightarrow> Inl e
      | Inr in_box_diff \<Rightarrow>
      let abs_in_box_diff = map (map_row fabs) in_box_diff in
      case py_div 1 sigma_2 of
        Inl e \<Rightarrow> Inl e
      | Inr threshold \<Rightarrow>
      let smoothL1_sign = map (map_row (\<lambda>a. mask_of (flt a (to32 threshold)))) abs_in_box_diff in
      case py_div sigma_2 2 of
        Inl e \<Rightarrow> Inl e
      | Inr half_sigma_2 \<Rightarrow>
      case py_div 0.5 sigma_2 of
        Inl e \<Rightarrow> Inl e
      | Inr offset \<Rightarrow>
      let in_loss_box =
            map2 (zip_row fadd)
              (map2 (zip_row fmul)
                 (map (map_row (\<lambda>d. fmul (fmul d d) (to32 half_sigma_2))) in_box_diff)
                 smoothL1_sign)
              (map2 (zip_row fmul)
                 (map (map_row (\<lambda>a. fsub a (to32 offset))) abs_in_box_diff)
                 (map (map_row (\<lambda>s. fsub (Fin 1) s)) smoothL1_sign))
      in
      case broadcast_rows fmul (elements bbox_outside_weights) in_loss_box of
        Inl e \<Rightarrow> Inl e
      | Inr out_loss_box \<Rightarrow>
      case sum_dims (rev (sort dims)) (T2 out_loss_box) of
        Inl e \<Rightarrow> Inl e
      | Inr loss_box \<Rightarrow> Inr (reduced_mean loss_box))"

text \<open>
  The same steps for one anchor, as the elementwise operations compose: the loss term of
  one element \<open>d\<close> of \<^verbatim>\<open>in_box_diff\<close>, the weighted term of one channel, and the sum over
  the two channels of one anchor.
\<close>

definition term32 :: "real \<Rightarrow> scalar \<Rightarrow> scalar" where
  "term32 sigma_2 d =
     (let m = mask_of (flt (fabs d) (to32 (rnd64 (1 / sigma_2))))
      in fadd (fmul (fmul (fmul d d) (to32 (rnd64 (sigma_2 / 2)))) m)
              (fmul (fsub (fabs d) (to32 (rnd64 (0.5 / sigma_2)))) (fsub (Fin 1) m)))"

definition channel32 :: "real \<Rightarrow> real \<Rightarrow> real \<Rightarrow> real \<Rightarrow> real \<Rightarrow> scalar" where
  "channel32 sigma_2 pred target inside_weight outside_weight =
     fmul (Fin outside_weight)
       (term32 sigma_2 (fmul (Fin inside_weight) (fsub (Fin pred) (Fin target))))"

definition anchor32 :: "real \<Rightarrow> row \<times> row \<times> row \<times> row \<Rightarrow> scalar" where
  "anchor32 sigma_2 a =
     (case a of (pred, target, inside_weight, outside_weight) \<Rightarrow>
        fadd (channel32 sigma_2 (fst pred) (fst target) (fst inside_weight) (fst outside_weight))
             (channel32 sigma_2 (snd pred) (snd target) (snd inside_weight) (snd outside_weight)))"

subsection \<open>The loss term over the real numbers\<close>

text \<open>
  Lines 104 to 110 for one element \<open>d\<close> of \<^verbatim>\<open>in_box_diff\<close>, read over the real numbers:
  the mask \<^verbatim>\<open>smoothL1_sign\<close> and the blend of the quadratic and the linear formula. This is
  what the tensor operations compute as long as no intermediate value leaves the range of
  the format.
\<close>

definition smoothL1_sign_elem :: "real \<Rightarrow> real \<Rightarrow> real" where
  "smoothL1_sign_elem sigma_2 a = (if a < 1 / sigma_2 then 1 else 0)"

definition in_loss_box_elem :: "real \<Rightarrow> real \<Rightarrow> real \<Rightarrow> real \<Rightarrow> real" where
  "in_loss_box_elem sigma_2 d a s =
     d ^ 2 * (sigma_2 / 2) * s + (a - 0.5 / sigma_2) * (1 - s)"

definition smooth_l1_elem :: "real \<Rightarrow> real \<Rightarrow> real" where
  "smooth_l1_elem sigma d =
     (let sigma_2 = sigma ^ 2;
          a = \<bar>d\<bar>
      in in_loss_box_elem sigma_2 d a (smoothL1_sign_elem sigma_2 a))"

subsection \<open>The regression loss in the words of the specification\<close>

text \<open>
  With \<open>d = inside_weight \<cdot> (pred - target)\<close>: the term is \<open>0.5 \<cdot> sigma\<^sup>2 \<cdot> d\<^sup>2\<close> if
  \<open>|d| < 1 / sigma\<^sup>2\<close>, else \<open>|d| - 0.5 / sigma\<^sup>2\<close>; it is multiplied by the outside
  weight, summed over the two channels and averaged over the anchors. The average over no
  anchor is undefined.
\<close>

definition spec_term :: "real \<Rightarrow> real \<Rightarrow> real" where
  "spec_term sigma d =
     (if \<bar>d\<bar> < 1 / sigma ^ 2 then 0.5 * sigma ^ 2 * d ^ 2 else \<bar>d\<bar> - 0.5 / sigma ^ 2)"

definition spec_channel :: "real \<Rightarrow> real \<Rightarrow> real \<Rightarrow> real \<Rightarrow> real \<Rightarrow> real" where
  "spec_channel sigma pred target inside_weight outside_weight =
     outside_weight * spec_term sigma (inside_weight * (pred - target))"

definition spec_anchor :: "real \<Rightarrow> row \<times> row \<times> row \<times> row \<Rightarrow> real" where
  "spec_anchor sigma a =
     (case a of (pred, target, inside_weight, outside_weight) \<Rightarrow>
        spec_channel sigma (fst pred) (fst target) (fst inside_weight) (fst outside_weight)
      + spec_channel sigma (snd pred) (snd target) (snd inside_weight) (snd outside_weight))"

definition average :: "real list \<Rightarrow> scalar" where
  "average xs = (if length xs = 0 then NaN else Fin (sum_list xs / real (length xs)))"

definition spec_regression_loss ::
  "row list \<Rightarrow> row list \<Rightarrow> row list \<Rightarrow> row list \<Rightarrow> real \<Rightarrow> scalar" where
  "spec_regression_loss pred target inside_weight outside_weight sigma =
     average (map (spec_anchor sigma) (zip pred (zip target (zip inside_weight outside_weight))))"

text \<open>
  A range of arguments in which no intermediate value of \<^verbatim>\<open>smooth_l1_loss\<close> leaves the
  format: \<open>sigma\<close> between \<open>1 / 2 ^ 8\<close> and \<open>2 ^ 8\<close>, at most \<open>2 ^ 20\<close> anchors, predictions and
  targets of magnitude at most \<open>2 ^ 30\<close>, weights of magnitude at most 1.
\<close>

definition row_within :: "real \<Rightarrow> row \<Rightarrow> bool" where
  "row_within b r = (\<bar>fst r\<bar> \<le> b \<and> \<bar>snd r\<bar> \<le> b)"

definition box_bounded :: "real \<Rightarrow> row list \<Rightarrow> row list \<Rightarrow> row list \<Rightarrow> row list \<Rightarrow> bool" where
  "box_bounded sigma pred target inside_weight outside_weight =
     (1 / 2 ^ 8 \<le> sigma \<and> sigma \<le> 2 ^ 8 \<and> length pred \<le> 2 ^ 20 \<and>
      list_all (row_within (2 ^ 30)) pred \<and> list_all (row_within (2 ^ 30)) target \<and>
      list_all (row_within 1) inside_weight \<and> list_all (row_within 1) outside_weight)"

subsection \<open>binary\_cross\_entropy\<close>

text \<open>
  \<^verbatim>\<open>F.binary_cross_entropy(input, target)\<close> of the tensor library, with its default mean
  reduction and no weight: input and target must have the same size (\<^verbatim>\<open>ValueError\<close>),
  every element of the input and, in recent versions of the library, of the target must
  lie in \<open>[0, 1]\<close> (\<^verbatim>\<open>RuntimeError\<close>), each logarithm is clamped below at \<open>-100\<close> (so that
  the logarithm of 0 counts as \<open>-100\<close>), and the result is the mean of the elementwise
  losses. After the two checks an elementwise loss lies between 0 and 100.
\<close>

definition clamped_log :: "real \<Rightarrow> real" where
  "clamped_log x = (if x \<le> 0 then - 100 else max (ln x) (- 100))"

definition bce_elem :: "real \<Rightarrow> real \<Rightarrow> real" where
  "bce_elem p y = - (y * clamped_log p + (1 - y) * clamped_log (1 - p))"

definition binary_cross_entropy :: "real list \<Rightarrow> real list \<Rightarrow> error + scalar" where
  "binary_cross_entropy input target =
     (if length input \<noteq> length target then Inl ValueError
      else if \<not> list_all (\<lambda>p. 0 \<le> p \<and> p \<le> 1) input then Inl RuntimeError
      else if \<not> list_all (\<lambda>y. 0 \<le> y \<and> y \<le> 1) target then Inl RuntimeError
      else Inr (fmean (map Fin (map2 bce_elem input target))))"

subsection \<open>rpn\_loss\<close>

text \<open>
  The tensors arrive flattened (\<^verbatim>\<open>view(-1)\<close>): one probability and one label per anchor.
  \<^verbatim>\<open>(rpn_labels.data != -1).nonzero().view(-1)\<close> is the increasing list of the indices
  whose label is not the sentinel \<open>-1\<close>; \<^verbatim>\<open>index_select(0, idx)\<close> gathers the elements at
  these indices and raises \<^verbatim>\<open>IndexError\<close> on an index out of range.
\<close>

definition nonzero_not_ignore :: "int list \<Rightarrow> nat list" where
  "nonzero_not_ignore rpn_labels =
     filter (\<lambda>i. rpn_labels ! i \<noteq> - 1) [0..<length rpn_labels]"

definition index_select :: "'a list \<Rightarrow> nat list \<Rightarrow> error + 'a list" where
  "index_select xs idx =
     (if list_all (\<lambda>i. i < length xs) idx then Inr (map (\<lambda>i. xs ! i) idx)
      else Inl IndexError)"

text \<open>The class loss, lines 133 to 140 of \<^verbatim>\<open>rpn_loss\<close>.\<close>

definition rpn_cross_entropy :: "real list \<Rightarrow> int list \<Rightarrow> error + scalar" where
  "rpn_cross_entropy rpn_cls_prob rpn_labels =
     (let rpn_select = nonzero_not_ignore rpn_labels in
      case index_select rpn_cls_prob rpn_select of
        Inl e \<Rightarrow> Inl e
      | Inr cls_prob \<Rightarrow>
      (case index_select rpn_labels rpn_select of
        Inl e \<Rightarrow> Inl e
      | Inr labels \<Rightarrow> binary_cross_entropy cls_prob (map real_of_int labels)))"

text \<open>The box loss, lines 143 to 155 of \<^verbatim>\<open>rpn_loss\<close>.\<close>

definition rpn_loss_box ::
  "real list \<Rightarrow> real list \<Rightarrow> real list \<Rightarrow> real list \<Rightarrow> real \<Rightarrow> int list
     \<Rightarrow> error + scalar" where
  "rpn_loss_box rpn_bbox_pred rpn_bbox_targets rpn_bbox_inside_weights
       rpn_bbox_outside_weights sigma dims =
     (case view_2 rpn_bbox_pred of
        Inl e \<Rightarrow> Inl e
      | Inr bbox_pred \<Rightarrow>
      (case view_2 rpn_bbox_targets of
        Inl e \<Rightarrow> Inl e
      | Inr bbox_targets \<Rightarrow>
      (case view_2 rpn_bbox_inside_weights of
        Inl e \<Rightarrow> Inl e
      | Inr bbox_inside_weights \<Rightarrow>
      (case view_2 rpn_bbox_outside_weights of
        Inl e \<Rightarrow> Inl e
      | Inr bbox_outside_weights \<Rightarrow>
          smooth_l1_loss bbox_pred bbox_targets bbox_inside_weights bbox_outside_weights
            sigma dims))))"

text \<open>
  \<^verbatim>\<open>rpn_loss\<close>: the class loss is computed first, then the box loss; an exception of
  either ends the call. \<^verbatim>\<open>sigma\<close> and \<^verbatim>\<open>loss_box_weight\<close> are Python floats (both
  default to 1.0); \<^verbatim>\<open>dim\<close> is passed on to \<^verbatim>\<open>smooth_l1_loss\<close>. The total is
  \<^verbatim>\<open>rpn_cross_entropy + loss_box_weight * rpn_loss_box\<close> on tensors of no dimension.
\<close>

definition rpn_loss ::
  "real list \<Rightarrow> int list \<Rightarrow> real list \<Rightarrow> real list \<Rightarrow> real list \<Rightarrow> real list
     \<Rightarrow> real \<Rightarrow> int list \<Rightarrow> real \<Rightarrow> error + scalar" where
  "rpn_loss rpn_cls_prob rpn_labels rpn_bbox_pred rpn_bbox_targets rpn_bbox_inside_weights
       rpn_bbox_outside_weights sigma dims loss_box_weight =
     (case rpn_cross_entropy rpn_cls_prob rpn_labels of
        Inl e \<Rightarrow> Inl e
      | Inr cross_entropy \<Rightarrow>
      (case rpn_loss_box rpn_bbox_pred rpn_bbox_targets rpn_bbox_inside_weights
              rpn_bbox_outside_weights sigma dims of
        Inl e \<Rightarrow> Inl e
      | Inr loss_box \<Rightarrow>
          Inr (fadd cross_entropy (fmul (rnd32 loss_box_weight) loss_box))))"

text \<open>
  A range of arguments in which no intermediate value of \<^verbatim>\<open>rpn_loss\<close> leaves the format:
  that of \<open>box_bounded\<close> on the flattened box tensors, and a \<^verbatim>\<open>loss_box_weight\<close> of at
  most \<open>2 ^ 20\<close>.
\<close>

definition loss_bounded ::
  "real \<Rightarrow> int list \<Rightarrow> real list \<Rightarrow> real list \<Rightarrow> real list \<Rightarrow> real list \<Rightarrow> real \<Rightarrow> bool" where
  "loss_bounded sigma rpn_labels rpn_bbox_pred rpn_bbox_targets rpn_bbox_inside_weights
       rpn_bbox_outside_weights loss_box_weight =
     (1 / 2 ^ 8 \<le> sigma \<and> sigma \<le> 2 ^ 8 \<and> length rpn_labels \<le> 2 ^ 20 \<and>
      loss_box_weight \<le> 2 ^ 20 \<and>
      list_all (\<lambda>x. \<bar>x\<bar> \<le> 2 ^ 30) rpn_bbox_pred \<and>
      list_all (\<lambda>x. \<bar>x\<bar> \<le> 2 ^ 30) rpn_bbox_targets \<and>
      list_all (\<lambda>x. \<bar>x\<bar> \<le> 1) rpn_bbox_inside_weights \<and>
      list_all (\<lambda>x. \<bar>x\<bar> \<le> 1) rpn_bbox_outside_weights)"

subsection \<open>The classification loss in the words of the specification\<close>

text \<open>
  The anchors that count are those whose label is not Ignore; the loss is the binary
  cross-entropy between their probabilities and their labels.
\<close>

definition labelled :: "real list \<Rightarrow> int list \<Rightarrow> (real \<times> int) list" where
  "labelled probs labels = filter (\<lambda>a. snd a \<noteq> - 1) (zip probs labels)"

definition spec_classification_loss :: "real list \<Rightarrow> int list \<Rightarrow> error + scalar" where
  "spec_classification_loss probs labels =
     binary_cross_entropy (map fst (labelled probs labels))
       (map (\<lambda>a. real_of_int (snd a)) (labelled probs labels))"

section \<open>The orchestrator (models/rpn1d/region\_proposal\_network\_1d.py)\<close>

subsection \<open>Tensors with a shape\<close>

record tensor =
  shape :: "nat list"
  elems :: "real list"

text \<open>\<^verbatim>\<open>t.size()[0]\<close> and \<^verbatim>\<open>t.size(-1)\<close>; both fail on a tensor with no dimension.\<close>

definition size_first :: "tensor \<Rightarrow> error + nat" where
  "size_first t = (case shape t of [] \<Rightarrow> Inl IndexError | b # _ \<Rightarrow> Inr b)"

definition size_last :: "tensor \<Rightarrow> error + nat" where
  "size_last t = (if shape t = [] then Inl IndexError else Inr (last (shape t)))"

definition sigmoid :: "tensor \<Rightarrow> tensor" where
  "sigmoid t = t\<lparr>elems := map (\<lambda>x. 1 / (1 + exp (- x))) (elems t)\<rparr>"

text \<open>
  \<^verbatim>\<open>t.permute(0, 2, 1).contiguous()\<close>: a tensor of shape \<open>(b, c, l)\<close> becomes one of shape
  \<open>(b, l, c)\<close>, its elements laid out in the new order; any other number of dimensions
  is a \<^verbatim>\<open>RuntimeError\<close>.
\<close>

definition permute_0_2_1 :: "tensor \<Rightarrow> error + tensor" where
  "permute_0_2_1 t =
     (case shape t of
        [b, c, l] \<Rightarrow>
          Inr \<lparr>shape = [b, l, c],
               elems = concat (map (\<lambda>i. concat (map (\<lambda>j.
                         map (\<lambda>k. elems t ! (i * c * l + k * l + j)) [0..<c]) [0..<l])) [0..<b])\<rparr>
      | _ \<Rightarrow> Inl RuntimeError)"

text \<open>\<^verbatim>\<open>.long()\<close> on a floating-point tensor truncates towards zero.\<close>

definition long :: "real \<Rightarrow> int" where
  "long x = (if 0 \<le> x then \<lfloor>x\<rfloor> else \<lceil>x\<rceil>)"

subsection \<open>The model instance\<close>

text \<open>
  The attributes of a \<^verbatim>\<open>RegionProposalNetwork1d\<close> that \<^verbatim>\<open>forward\<close> uses. The backbone
  and the three convolutional heads are modules of the tensor library, and
  \<^verbatim>\<open>proposal_layer_1d\<close> and \<^verbatim>\<open>anchor_target_layer_1d\<close> are defined in other modules
  (\<^verbatim>\<open>models/rpn1d/proposal_layer_1d.py\<close>, \<^verbatim>\<open>models/rpn1d/anchor_target_layer_1d.py\<close>):
  all six are parameters here, each free to raise. The two layers stand for the methods
  \<^verbatim>\<open>self.proposal_layer\<close> and \<^verbatim>\<open>self.anchor_target_layer\<close>, which pass the anchors and the
  configured thresholds on; \<^verbatim>\<open>anchor_target_layer\<close> yields the labels, the box targets and
  the inside and outside weights.
\<close>

record 'g rpn =
  mode :: string
  backbone :: "tensor \<Rightarrow> error + tensor"
  rpn_net :: "tensor \<Rightarrow> error + tensor"
  rpn_cls_score_net :: "tensor \<Rightarrow> error + tensor"
  rpn_bbox_pred_net :: "tensor \<Rightarrow> error + tensor"
  proposal_layer :: "tensor \<Rightarrow> tensor \<Rightarrow> nat \<Rightarrow> error + tensor"
  anchor_target_layer :: "'g \<Rightarrow> nat \<Rightarrow> error + (real list \<times> real list \<times> real list \<times> real list)"

datatype forward_result = Proposals tensor | Loss scalar

subsection \<open>forward\<close>

text \<open>
  Lines 162 and 163: in train mode the batch dimension must be 1. The \<^verbatim>\<open>assert\<close>
  statement is taken as executed, that is, the interpreter does not run with \<^verbatim>\<open>-O\<close>.
\<close>

definition check_batch :: "'g rpn \<Rightarrow> tensor \<Rightarrow> error + unit" where
  "check_batch self sequence =
     (if mode self = ''train'' then
        (case size_first sequence of
           Inl e \<Rightarrow> Inl e
         | Inr b \<Rightarrow> if b = 1 then Inr () else Inl (AssertionError ''batch_size=1 train only''))
      else Inr ())"

text \<open>
  Lines 165 to 182, run in every mode: backbone, heads, sigmoid, permutations and the
  proposal layer. The result is the triple \<^verbatim>\<open>(rpn_cls_prob, rpn_bbox_pred, output)\<close>.
\<close>

definition forward_pass :: "'g rpn \<Rightarrow> tensor \<Rightarrow> error + (tensor \<times> tensor \<times> tensor)" where
  "forward_pass self sequence =
     (case backbone self sequence of
        Inl e \<Rightarrow> Inl e
      | Inr feature_map \<Rightarrow>
      case rpn_net self feature_map of
        Inl e \<Rightarrow> Inl e
      | Inr rpn \<Rightarrow>
      case rpn_cls_score_net self rpn of
        Inl e \<Rightarrow> Inl e
      | Inr rpn_cls_score \<Rightarrow>
      case permute_0_2_1 (sigmoid rpn_cls_score) of
        Inl e \<Rightarrow> Inl e
      | Inr rpn_cls_prob \<Rightarrow>
      case rpn_bbox_pred_net self rpn of
        Inl e \<Rightarrow> Inl e
      | Inr bbox_pred \<Rightarrow>
      case permute_0_2_1 bbox_pred of
        Inl e \<Rightarrow> Inl e
      | Inr rpn_bbox_pred \<Rightarrow>
      case size_last sequence of
        Inl e \<Rightarrow> Inl e
      | Inr seq_len \<Rightarrow>
      case proposal_layer self rpn_cls_prob rpn_bbox_pred seq_len of
        Inl e \<Rightarrow> Inl e
      | Inr rpn_output \<Rightarrow> Inr (rpn_cls_prob, rpn_bbox_pred, rpn_output))"

text \<open>
  Lines 187 to 210, the train branch. Printing \<^verbatim>\<open>output[:, 0, :]\<close> fails with
  \<^verbatim>\<open>IndexError\<close> unless the output has at least three dimensions and a first proposal;
  the printed text itself is not modelled. \<^verbatim>\<open>rpn_loss\<close> is called with its default
  \<^verbatim>\<open>sigma\<close>, \<^verbatim>\<open>dim\<close> and \<^verbatim>\<open>loss_box_weight\<close>.
\<close>

definition train_branch ::
  "'g rpn \<Rightarrow> tensor \<Rightarrow> 'g \<Rightarrow> tensor \<Rightarrow> tensor \<Rightarrow> tensor \<Rightarrow> error + forward_result" where
  "train_branch self sequence gt_boxes rpn_cls_prob rpn_bbox_pred output =
     (if \<not> (3 \<le> length (shape output) \<and> 0 < shape output ! 1) then Inl IndexError
      else
      case size_last sequence of
        Inl e \<Rightarrow> Inl e
      | Inr seq_len \<Rightarrow>
      case anchor_target_layer self gt_boxes seq_len of
        Inl e \<Rightarrow> Inl e
      | Inr (rpn_labels, rpn_bbox_targets, rpn_bbox_inside_weights, rpn_bbox_outside_weights) \<Rightarrow>
      case rpn_loss (elems rpn_cls_prob) (map long rpn_labels) (elems rpn_bbox_pred)
             rpn_bbox_targets rpn_bbox_inside_weights rpn_bbox_outside_weights 1 [1] 1 of
        Inl e \<Rightarrow> Inl e
      | Inr l \<Rightarrow> Inr (Loss l))"

definition forward :: "'g rpn \<Rightarrow> tensor \<Rightarrow> 'g \<Rightarrow> error + forward_result" where
  "forward self sequence gt_boxes =
     (case check_batch self sequence of
        Inl e \<Rightarrow> Inl e
      | Inr _ \<Rightarrow>
      case forward_pass self sequence of
        Inl e \<Rightarrow> Inl e
      | Inr (rpn_cls_prob, rpn_bbox_pred, output) \<Rightarrow>
          if mode self = ''test'' then Inr (Proposals output)
          else if mode self = ''train'' then
            train_branch self sequence gt_boxes rpn_cls_prob rpn_bbox_pred output
          else Inl NotImplementedError)"

subsection \<open>The constructor\<close>

text \<open>
  Name resolution inside \<^verbatim>\<open>__init__\<close>: a name that is neither a parameter nor assigned
  in the function is looked up among the names bound at module level, then among
  Python's builtins, and is a \<^verbatim>\<open>NameError\<close> if it is in neither. The module binds what
  its import statements and its one class statement bind, besides the attributes every
  module has.
\<close>

definition init_params :: "string list" where
  "init_params =
     [''self'', ''model'', ''load_backbone'', ''backbone_path'', ''rpn_channels'',
      ''rpn_kernel_size'', ''pre_nms_topN'', ''nms_threshold'', ''post_nms_topN'',
      ''device'', ''mode'']"

definition module_globals :: "string list" where
  "module_globals =
     [''__name__'', ''__doc__'', ''__package__'', ''__loader__'', ''__spec__'', ''__file__'',
      ''__cached__'', ''__builtins__'',
      ''copy'', ''np'', ''torch'', ''nn'', ''F'', ''os'', ''sys'',
      ''ChromatogramsDataset'', ''DepthSeparableConv1d'', ''generate_anchors_1d'',
      ''anchor_target_layer_1d'', ''proposal_layer_1d'', ''RegionProposalNetwork1d'']"

definition py_builtins :: "string list" where
  "py_builtins =
     [''abs'', ''aiter'', ''all'', ''anext'', ''any'', ''ascii'', ''bin'', ''bool'',
      ''breakpoint'', ''bytearray'', ''bytes'', ''callable'', ''chr'', ''classmethod'',
      ''compile'', ''complex'', ''copyright'', ''credits'', ''delattr'', ''dict'', ''dir'',
      ''divmod'', ''enumerate'', ''eval'', ''exec'', ''exit'', ''filter'', ''float'',
      ''format'', ''frozenset'', ''getattr'', ''globals'', ''hasattr'', ''hash'', ''help'',
      ''hex'', ''id'', ''input'', ''int'', ''isinstance'', ''issubclass'', ''iter'', ''len'',
      ''license'', ''list'', ''locals'', ''map'', ''max'', ''memoryview'', ''min'', ''next'',
      ''object'', ''oct'', ''open'', ''ord'', ''pow'', ''print'', ''property'', ''quit'',
      ''range'', ''repr'', ''reversed'', ''round'', ''set'', ''setattr'', ''slice'',
      ''sorted'', ''staticmethod'', ''str'', ''sum'', ''super'', ''tuple'', ''type'',
      ''vars'', ''zip'', ''__build_class__'', ''__debug__'', ''__doc__'', ''__import__'',
      ''__loader__'', ''__name__'', ''__package__'', ''__spec__'',
      ''True'', ''False'', ''None'', ''Ellipsis'', ''NotImplemented'',
      ''ArithmeticError'', ''AssertionError'', ''AttributeError'', ''BaseException'',
      ''BaseExceptionGroup'', ''BlockingIOError'', ''BrokenPipeError'', ''BufferError'',
      ''BytesWarning'', ''ChildProcessError'', ''ConnectionAbortedError'',
      ''ConnectionError'', ''ConnectionRefusedError'', ''ConnectionResetError'',
      ''DeprecationWarning'', ''EOFError'', ''EncodingWarning'', ''EnvironmentError'',
      ''Exception'', ''ExceptionGroup'', ''FileExistsError'', ''FileNotFoundError'',
      ''FloatingPointError'', ''FutureWarning'', ''GeneratorExit'', ''IOError'',
      ''ImportError'', ''ImportWarning'', ''IndentationError'', ''IndexError'',
      ''InterruptedError'', ''IsADirectoryError'', ''KeyError'', ''KeyboardInterrupt'',
      ''LookupError'', ''MemoryError'', ''ModuleNotFoundError'', ''NameError'',
      ''NotADirectoryError'', ''NotImplementedError'', ''OSError'', ''OverflowError'',
      ''PendingDeprecationWarning'', ''PermissionError'', ''ProcessLookupError'',
      ''RecursionError'', ''ReferenceError'', ''ResourceWarning'', ''RuntimeError'',
      ''RuntimeWarning'', ''StopAsyncIteration'', ''StopIteration'', ''SyntaxError'',
      ''SyntaxWarning'', ''SystemError'', ''SystemExit'', ''TabError'', ''TimeoutError'',
      ''TypeError'', ''UnboundLocalError'', ''UnicodeDecodeError'', ''UnicodeEncodeError'',
      ''UnicodeError'', ''UnicodeTranslateError'', ''UnicodeWarning'', ''UserWarning'',
      ''ValueError'', ''Warning'', ''ZeroDivisionError'']"

definition load_name :: "string \<Rightarrow> error + unit" where
  "load_name name =
     (if name \<in> set init_params then Inr ()
      else if name \<in> set module_globals then Inr ()
      else if name \<in> set py_builtins then Inr ()
      else Inl (NameError name))"

text \<open>The keyword arguments of the constructor.\<close>

record 'm init_args =
  arg_model :: 'm
  arg_load_backbone :: bool
  arg_backbone_path :: string
  arg_rpn_channels :: int
  arg_rpn_kernel_size :: int
  arg_pre_nms_topN :: int
  arg_nms_threshold :: real
  arg_post_nms_topN :: int
  arg_device :: string
  arg_mode :: string

text \<open>
  What the constructor calls outside this file, each free to raise: \<^verbatim>\<open>copy.deepcopy\<close>;
  the statement that loads the backbone's weights from a path; \<^verbatim>\<open>generate_anchors_1d\<close>
  (of \<^verbatim>\<open>models/rpn1d/anchor_generation_1d.py\<close>); the transfer of the anchors to the device; and the
  construction of the layers from line 45 on, once their arguments are evaluated.
\<close>

record ('m, 'a, 'i) init_env =
  deepcopy :: "'m \<Rightarrow> error + 'm"
  load_weights :: "'m \<Rightarrow> string \<Rightarrow> string \<Rightarrow> error + 'm"
  generate_anchors_1d :: "error + ('a \<times> nat)"
  to_device :: "'a \<Rightarrow> string \<Rightarrow> error + 'a"
  build_layers :: "'m init_args \<Rightarrow> 'm \<Rightarrow> 'a \<Rightarrow> nat \<Rightarrow> error + 'i"

text \<open>
  Lines 28 to 43: the copy of the backbone (\<open>copied\<close>), the same with the optional weights
  (\<open>loaded\<close>, the final \<^verbatim>\<open>self.backbone\<close>), the anchors and the anchors on the device
  (\<open>moved\<close>, the final \<^verbatim>\<open>self.anchors\<close>).
\<close>

definition init_prefix ::
  "('m, 'a, 'i) init_env \<Rightarrow> 'm init_args \<Rightarrow> error + ('m \<times> 'a \<times> nat)" where
  "init_prefix env args =
     (case deepcopy env (arg_model args) of
        Inl e \<Rightarrow> Inl e
      | Inr copied \<Rightarrow>
      case (if arg_load_backbone args
            then load_weights env copied (arg_backbone_path args) (arg_device args)
            else Inr copied) of
        Inl e \<Rightarrow> Inl e
      | Inr loaded \<Rightarrow>
      case generate_anchors_1d env of
        Inl e \<Rightarrow> Inl e
      | Inr (anchors, num_anchors) \<Rightarrow>
      case to_device env anchors (arg_device args) of
        Inl e \<Rightarrow> Inl e
      | Inr moved \<Rightarrow> Inr (loaded, moved, num_anchors))"

text \<open>
  Lines 45 to 55 evaluate, in this order, the names \<^verbatim>\<open>nn\<close>, \<^verbatim>\<open>DepthSeparableConv1d\<close>
  and \<^verbatim>\<open>out_channels\<close> (the first argument of the first layer) before any layer is
  built.
\<close>

definition rpn_net_names :: "error + unit" where
  "rpn_net_names =
     (case load_name ''nn'' of
        Inl e \<Rightarrow> Inl e
      | Inr _ \<Rightarrow>
      case load_name ''DepthSeparableConv1d'' of
        Inl e \<Rightarrow> Inl e
      | Inr _ \<Rightarrow> load_name ''out_channels'')"

definition init :: "('m, 'a, 'i) init_env \<Rightarrow> 'm init_args \<Rightarrow> error + 'i" where
  "init env args =
     (case init_prefix env args of
        Inl e \<Rightarrow> Inl e
      | Inr (loaded, anchors, num_anchors) \<Rightarrow>
      case rpn_net_names of
        Inl e \<Rightarrow> Inl e
      | Inr _ \<Rightarrow> build_layers env args loaded anchors num_anchors)"

section \<open>Properties of the interval overlap test\<close>

text \<open>
  C9. For well-formed closed intervals (\<open>pred_min \<le> pred_max\<close> and
  \<open>target_min \<le> target_max\<close>), \<open>overlaps\<close> returns True if and only if the two
  intervals intersect, that is \<open>pred_min \<le> target_max\<close> and \<open>target_min \<le> pred_max\<close>;
  in particular the result does not change when the two intervals are exchanged.
\<close>

theorem overlaps_iff_intersect:
  assumes "pred_min \<le> pred_max" and "target_min \<le> target_max"
  shows "(overlaps pred_min pred_max target_min target_max
            \<longleftrightarrow> pred_min \<le> target_max \<and> target_min \<le> pred_max)
         \<and> overlaps pred_min pred_max target_min target_max
            = overlaps target_min target_max pred_min pred_max"
  using assms unfolding overlaps_def by auto

theorem overlaps_iff_intersect_witness:
  "(1::int) \<le> 5 \<and> (3::int) \<le> 9
   \<and> overlaps (1::int) 5 3 9 \<and> overlaps (3::int) 9 1 5
   \<and> \<not> overlaps (1::int) 2 3 9 \<and> \<not> overlaps (3::int) 9 1 2"
proof -
  have a: "(1::int) \<le> 5" and b: "(3::int) \<le> 9" and c: "(1::int) \<le> 2"
    by simp_all
  show ?thesis
    using overlaps_iff_intersect [OF a b] overlaps_iff_intersect [OF c b]
    by auto
qed

section \<open>Properties of the chromatogram labels and bounding box\<close>

lemma in_peak_truthy:
  "in_peak lw rw t \<longleftrightarrow> truthy lw \<and> truthy rw \<and> the lw \<le> t \<and> t \<le> the rw"
  by (cases lw; cases rw) (auto simp: truthy_def)

lemma labels_loop_append:
  "labels_loop lw rw ts acc = acc @ map (\<lambda>t. if in_peak lw rw t then 1 else 0) ts"
  by (induction ts arbitrary: acc) (auto simp: in_peak_truthy)

lemma hd_filter_upt_least:
  assumes "filter P [0..<n] \<noteq> []"
  shows "hd (filter P [0..<n]) < n \<and> P (hd (filter P [0..<n]))
         \<and> (\<forall>j<n. P j \<longrightarrow> hd (filter P [0..<n]) \<le> j)"
proof -
  obtain x xs where eq: "filter P [0..<n] = x # xs"
    using assms by (cases "filter P [0..<n]") auto
  have "x \<in> set (filter P [0..<n])" unfolding eq by simp
  then have mem: "x < n \<and> P x" by simp
  have srt: "sorted (x # xs)"
    using sorted_wrt_filter [of "(\<le>)" "[0..<n]" P] eq by simp
  have "\<forall>j<n. P j \<longrightarrow> x \<le> j"
  proof (intro allI impI)
    fix j assume "j < n" "P j"
    then have "j \<in> set (x # xs)" using eq [symmetric] by simp
    then show "x \<le> j" using srt by auto
  qed
  with mem show ?thesis by (simp add: eq)
qed

lemma last_filter_upt_greatest:
  assumes "filter P [0..<n] \<noteq> []"
  shows "last (filter P [0..<n]) < n \<and> P (last (filter P [0..<n]))
         \<and> (\<forall>j<n. P j \<longrightarrow> j \<le> last (filter P [0..<n]))"
proof -
  let ?xs = "filter P [0..<n]"
  have mem: "last ?xs \<in> set ?xs" using assms by (rule last_in_set)
  have srt: "sorted ?xs" by (rule sorted_wrt_filter) simp
  have "\<forall>j<n. P j \<longrightarrow> j \<le> last ?xs"
  proof (intro allI impI)
    fix j assume "j < n" "P j"
    then have "j \<in> set ?xs" by simp
    then obtain k where k: "k < length ?xs" "?xs ! k = j"
      unfolding in_set_conv_nth by blast
    have "?xs ! k \<le> ?xs ! (length ?xs - 1)"
      using srt k(1) by (intro sorted_nth_mono) auto
    then show "j \<le> last ?xs"
      using k(2) assms by (simp add: last_conv_nth)
  qed
  moreover have "last ?xs < n \<and> P (last ?xs)" using mem by simp
  ultimately show ?thesis by blast
qed

text \<open>
  C10. For every list of times and every pair of bounds, the label vector has one entry per
  time; entry \<open>i\<close> is 1 exactly when both bounds are truthy and
  \<open>left_width \<le> times[i] \<le> right_width\<close>, and 0 otherwise; \<open>bb_start\<close> and \<open>bb_end\<close> are
  the first and the last index labelled 1, and both are \<open>None\<close> when no index is labelled 1.
\<close>

theorem labels_and_bbox_correct:
  fixes left_width right_width :: "real option" and ts :: "real list"
  defines "res \<equiv> get_chromatogram_labels_and_bbox left_width right_width ts"
  defines "row_labels \<equiv> fst res"
  defines "bb_start \<equiv> fst (snd res)"
  defines "bb_end \<equiv> snd (snd res)"
  shows "length row_labels = length ts
     \<and> (\<forall>i<length ts. row_labels ! i = (if in_peak left_width right_width (ts ! i) then 1 else 0))
     \<and> ((\<forall>i<length ts. row_labels ! i \<noteq> 1) \<longrightarrow> bb_start = None \<and> bb_end = None)
     \<and> ((\<exists>i<length ts. row_labels ! i = 1) \<longrightarrow>
          (\<exists>s e. bb_start = Some s \<and> bb_end = Some e \<and> s \<le> e \<and> e < length ts
             \<and> row_labels ! s = 1 \<and> row_labels ! e = 1
             \<and> (\<forall>j<length ts. row_labels ! j = 1 \<longrightarrow> s \<le> j \<and> j \<le> e)))"
proof -
  let ?L = "map (\<lambda>t. if in_peak left_width right_width t then 1 else (0::int)) ts"
  let ?P = "\<lambda>i. ?L ! i = 1"
  let ?I = "filter ?P [0..<length ts]"
  have L: "labels_loop left_width right_width ts [] = ?L"
    by (simp add: labels_loop_append)
  have I: "where_eq_1 ?L = ?I" by (simp add: where_eq_1_def)
  have rl: "row_labels = ?L"
    by (simp add: row_labels_def res_def get_chromatogram_labels_and_bbox_def Let_def L)
  have len: "length row_labels = length ts" by (simp add: rl)
  have nth: "\<forall>i<length ts. row_labels ! i = (if in_peak left_width right_width (ts ! i) then 1 else 0)"
    by (simp add: rl)
  show ?thesis
  proof (cases "?I = []")
    case True
    then have none: "\<forall>i<length ts. row_labels ! i \<noteq> 1"
      unfolding rl by (auto simp: filter_empty_conv)
    have "bb_start = None \<and> bb_end = None"
      using True
      by (simp add: bb_start_def bb_end_def res_def get_chromatogram_labels_and_bbox_def Let_def L I)
    with len nth none show ?thesis by blast
  next
    case False
    have s: "bb_start = Some (hd ?I)" and e: "bb_end = Some (last ?I)"
      using False
      by (simp_all add: bb_start_def bb_end_def res_def get_chromatogram_labels_and_bbox_def Let_def L I)
    note h = hd_filter_upt_least [OF False] and l = last_filter_upt_greatest [OF False]
    have some: "\<exists>i<length ts. row_labels ! i = 1"
      unfolding rl using h by blast
    have "hd ?I \<le> last ?I" using h l by blast
    then have "\<exists>s e. bb_start = Some s \<and> bb_end = Some e \<and> s \<le> e \<and> e < length ts
             \<and> row_labels ! s = 1 \<and> row_labels ! e = 1
             \<and> (\<forall>j<length ts. row_labels ! j = 1 \<longrightarrow> s \<le> j \<and> j \<le> e)"
      unfolding rl using s e h l by blast
    with len nth some show ?thesis by blast
  qed
qed

theorem labels_and_bbox_correct_witness:
  "fst (get_chromatogram_labels_and_bbox (Some 2) (Some 4) [1, 2, 3, 4, 5]) = [0, 1, 1, 1, 0]
   \<and> (\<exists>s e. snd (get_chromatogram_labels_and_bbox (Some 2) (Some 4) [1, 2, 3, 4, 5]) = (Some s, Some e)
          \<and> s \<le> e \<and> e < 5)
   \<and> fst (get_chromatogram_labels_and_bbox (Some 0) (Some 4) [1, 2, 3, 4, 5]) = [0, 0, 0, 0, 0]
   \<and> snd (get_chromatogram_labels_and_bbox (Some 0) (Some 4) [1, 2, 3, 4, 5]) = (None, None)"
proof -
  let ?ts = "[1, 2, 3, 4, 5 :: real]"
  let ?G = "get_chromatogram_labels_and_bbox (Some 2) (Some 4) ?ts"
  let ?H = "get_chromatogram_labels_and_bbox (Some 0) (Some 4) ?ts"
  have g: "fst ?G = [0, 1, 1, 1, 0]"
    by (simp add: get_chromatogram_labels_and_bbox_def where_eq_1_def truthy_def Let_def upt_conv_Cons)
  from g have a: "\<exists>i<length ?ts. fst ?G ! i = 1"
    by (intro exI [of _ 1]) simp
  have h: "fst ?H = [0, 0, 0, 0, 0]"
    by (simp add: get_chromatogram_labels_and_bbox_def where_eq_1_def truthy_def Let_def upt_conv_Cons)
  from h have b: "\<forall>i<length ?ts. fst ?H ! i \<noteq> 1"
    by (simp add: nth_Cons' )
  note G = labels_and_bbox_correct [of "Some 2" "Some 4" ?ts]
  note H = labels_and_bbox_correct [of "Some 0" "Some 4" ?ts]
  have len: "length ?ts = 5" by simp
  from G a obtain s e where se: "fst (snd ?G) = Some s" "snd (snd ?G) = Some e"
      "s \<le> e" "e < length ?ts"
    by blast
  have c: "\<exists>s e. snd ?G = (Some s, Some e) \<and> s \<le> e \<and> e < 5"
    using se unfolding len by (intro exI [of _ s] exI [of _ e]) (simp add: prod_eq_iff)
  from H b have "fst (snd ?H) = None \<and> snd (snd ?H) = None"
    by blast
  then have d: "snd ?H = (None, None)"
    by (simp add: prod_eq_iff)
  from g h c d show ?thesis by blast
qed

section \<open>Properties of the floating-point operations\<close>

lemma f32_overflow_bounds:
  "2 ^ 127 \<le> f32_overflow" "f32_overflow \<le> 2 ^ 128" "0 < f32_overflow"
  by (simp_all add: f32_overflow_def)

lemma f64_overflow_bounds:
  "2 ^ 1023 \<le> f64_overflow" "0 < f64_overflow"
  by (simp_all add: f64_overflow_def)

lemma f32_le_f64: "f32_overflow \<le> f64_overflow"
proof -
  have "f32_overflow \<le> (2::real) ^ 128" by (rule f32_overflow_bounds)
  also have "\<dots> \<le> 2 ^ 1023" by (intro power_increasing) simp_all
  also have "\<dots> \<le> f64_overflow" by (rule f64_overflow_bounds)
  finally show ?thesis .
qed

lemma rnd32_Fin_iff: "rnd32 x = Fin v \<longleftrightarrow> \<bar>x\<bar> < f32_overflow \<and> v = x"
  using f32_overflow_bounds(3) by (auto simp: rnd32_def)

lemma rnd32_fits: "\<bar>x\<bar> < f32_overflow \<Longrightarrow> rnd32 x = Fin x"
  by (simp add: rnd32_Fin_iff)

lemma rnd32_not_NaN: "rnd32 x \<noteq> NaN"
  by (simp add: rnd32_def)

lemma rnd64_fits: "\<bar>x\<bar> < f64_overflow \<Longrightarrow> rnd64 x = Fin x"
  using f64_overflow_bounds(2) by (auto simp: rnd64_def)

lemma fadd_Fin_iff:
  "fadd a b = Fin v \<longleftrightarrow> (\<exists>x y. a = Fin x \<and> b = Fin y \<and> \<bar>x + y\<bar> < f32_overflow \<and> v = x + y)"
  by (cases a; cases b) (auto simp: rnd32_Fin_iff)

lemma fneg_Fin_iff: "fneg a = Fin v \<longleftrightarrow> (\<exists>x. a = Fin x \<and> v = - x)"
  by (cases a) auto

lemma fabs_Fin_iff: "fabs a = Fin v \<longleftrightarrow> (\<exists>x. a = Fin x \<and> v = \<bar>x\<bar>)"
  by (cases a) auto

lemma fsub_Fin_iff:
  "fsub a b = Fin v \<longleftrightarrow> (\<exists>x y. a = Fin x \<and> b = Fin y \<and> \<bar>x - y\<bar> < f32_overflow \<and> v = x - y)"
  by (auto simp: fsub_def fadd_Fin_iff fneg_Fin_iff)

lemma fmul_Fin_iff:
  "fmul a b = Fin v \<longleftrightarrow> (\<exists>x y. a = Fin x \<and> b = Fin y \<and> \<bar>x * y\<bar> < f32_overflow \<and> v = x * y)"
  by (cases a; cases b) (auto simp: rnd32_Fin_iff inf_times_def)

lemma foldl_fadd_Fin:
  "foldl fadd a xs = Fin v \<Longrightarrow> \<exists>a' rs. a = Fin a' \<and> xs = map Fin rs \<and> v = a' + sum_list rs"
proof (induction xs arbitrary: a)
  case Nil
  then show ?case by simp
next
  case (Cons x xs)
  from Cons.prems have "foldl fadd (fadd a x) xs = Fin v" by simp
  from Cons.IH [OF this] obtain b rs where
    b: "fadd a x = Fin b" and rs: "xs = map Fin rs" and v: "v = b + sum_list rs"
    by blast
  from b obtain a' x' where "a = Fin a'" "x = Fin x'" "b = a' + x'"
    by (auto simp: fadd_Fin_iff)
  with rs v have "a = Fin a' \<and> x # xs = map Fin (x' # rs) \<and> v = a' + sum_list (x' # rs)"
    by simp
  then show ?case by (intro exI [of _ a'] exI [of _ "x' # rs"])
qed

lemma fmean_Fin:
  assumes "fmean xs = Fin v"
  shows "\<exists>rs. xs = map Fin rs \<and> rs \<noteq> [] \<and> v = sum_list rs / real (length rs)"
proof -
  have ne: "xs \<noteq> []"
    using assms by (auto simp: fmean_def fsum_def inf_times_def)
  with assms obtain s where s: "fsum xs = Fin s" and n: "length xs \<noteq> 0"
      and v: "v = s / real (length xs)"
    by (cases "fsum xs") (auto simp: fmean_def split: if_splits)
  from foldl_fadd_Fin [OF s [unfolded fsum_def]] obtain rs where
    "xs = map Fin rs" "s = sum_list rs"
    by auto
  with n v show ?thesis by auto
qed

lemma foldl_fadd_bounded:
  assumes "\<forall>x\<in>set rs. \<bar>x\<bar> \<le> M" and "\<bar>a\<bar> + real (length rs) * M < f32_overflow"
  shows "foldl fadd (Fin a) (map Fin rs) = Fin (a + sum_list rs)"
  using assms
proof (induction rs arbitrary: a)
  case Nil
  then show ?case by simp
next
  case (Cons x rs)
  have x: "\<bar>x\<bar> \<le> M" using Cons.prems(1) by simp
  then have M: "0 \<le> M" by linarith
  have "\<bar>a + x\<bar> \<le> \<bar>a\<bar> + M" using x by linarith
  moreover have "\<bar>a\<bar> + M + real (length rs) * M = \<bar>a\<bar> + real (length (x # rs)) * M"
    by (simp add: algebra_simps)
  ultimately have b: "\<bar>a + x\<bar> + real (length rs) * M < f32_overflow"
    using Cons.prems(2) by linarith
  have "0 \<le> real (length rs) * M" using M by simp
  with b have fit: "\<bar>a + x\<bar> < f32_overflow" by linarith
  have "foldl fadd (Fin (a + x)) (map Fin rs) = Fin (a + x + sum_list rs)"
    using Cons.prems(1) b by (intro Cons.IH) auto
  then show ?case
    by (simp add: rnd32_fits [OF fit] add.assoc)
qed

lemma fmean_bounded:
  assumes "rs \<noteq> []" and "\<forall>x\<in>set rs. \<bar>x\<bar> \<le> M" and "real (length rs) * M < f32_overflow"
  shows "fmean (map Fin rs) = Fin (sum_list rs / real (length rs))"
proof -
  have "foldl fadd (Fin 0) (map Fin rs) = Fin (0 + sum_list rs)"
    using assms(2,3) by (intro foldl_fadd_bounded) auto
  then show ?thesis
    using assms(1) by (simp add: fmean_def fsum_def)
qed

section \<open>Properties of the smooth-L1 regression loss\<close>

lemma map2_map_map:
  "map2 f (map g xs) (map h xs) = map (\<lambda>x. f (g x) (h x)) xs"
  by (induction xs) auto

lemma smooth_l1_elem_spec:
  assumes "sigma \<noteq> 0"
  shows "smooth_l1_elem sigma d = spec_term sigma d"
  using assms
  by (simp add: smooth_l1_elem_def in_loss_box_elem_def smoothL1_sign_elem_def spec_term_def Let_def)

subsection \<open>The tensor operations, anchor by anchor\<close>

lemma length_elements: "length (elements rows) = length rows"
  by (simp add: elements_def)

lemma broadcast_rows_same_length:
  "length xs = length ys \<Longrightarrow> broadcast_rows f xs ys = Inr (map2 (zip_row f) xs ys)"
  by (simp add: broadcast_rows_def)

lemma in_loss_box_rows:
  "map2 (zip_row fadd)
     (map2 (zip_row fmul)
        (map (map_row (\<lambda>d. fmul (fmul d d) h)) ds)
        (map (map_row (\<lambda>a. mask_of (flt a c))) (map (map_row fabs) ds)))
     (map2 (zip_row fmul)
        (map (map_row (\<lambda>a. fsub a off)) (map (map_row fabs) ds))
        (map (map_row (\<lambda>s. fsub (Fin 1) s))
           (map (map_row (\<lambda>a. mask_of (flt a c))) (map (map_row fabs) ds))))
   = map (map_row (\<lambda>d. fadd (fmul (fmul (fmul d d) h) (mask_of (flt (fabs d) c)))
                          (fmul (fsub (fabs d) off) (fsub (Fin 1) (mask_of (flt (fabs d) c))))))
       ds"
  by (induction ds) (auto simp: map_row_def zip_row_def)

lemma anchor_rows:
  assumes "length tg = length p" and "length iw = length p" and "length ow = length p"
  shows "map (\<lambda>r. fadd (fst r) (snd r))
      (map2 (zip_row fmul) (elements ow)
        (map (map_row f)
           (map2 (zip_row fmul) (elements iw) (map2 (zip_row fsub) (elements p) (elements tg)))))
    = map (\<lambda>(pr, t, i, out).
             fadd (fmul (Fin (fst out)) (f (fmul (Fin (fst i)) (fsub (Fin (fst pr)) (Fin (fst t))))))
                  (fmul (Fin (snd out)) (f (fmul (Fin (snd i)) (fsub (Fin (snd pr)) (Fin (snd t)))))))
        (zip p (zip tg (zip iw ow)))"
  using assms
proof (induction p arbitrary: tg iw ow)
  case Nil
  then show ?case by (simp add: elements_def)
next
  case (Cons a p)
  then obtain b tg' c iw' d ow' where "tg = b # tg'" "iw = c # iw'" "ow = d # ow'"
    by (metis length_Suc_conv)
  with Cons show ?case
    by (simp add: zip_row_def map_row_def elements_def)
qed

lemma smooth_l1_loss_per_anchor:
  assumes "length tg = length p" and "length iw = length p" and "length ow = length p"
  shows "smooth_l1_loss p tg iw ow sigma [1] =
    (case py_square sigma of
       Inl e \<Rightarrow> Inl e
     | Inr sigma_2 \<Rightarrow>
         if sigma_2 = 0 then Inl ZeroDivisionError
         else Inr (fmean (map (anchor32 sigma_2) (zip p (zip tg (zip iw ow))))))"
proof (cases "py_square sigma")
  case (Inl e)
  then show ?thesis by (simp add: smooth_l1_loss_def)
next
  case (Inr s2)
  let ?bd = "map2 (zip_row fsub) (elements p) (elements tg)"
  let ?ibd = "map2 (zip_row fmul) (elements iw) ?bd"
  have b1: "broadcast_rows fsub (elements p) (elements tg) = Inr ?bd"
    using assms by (intro broadcast_rows_same_length) (simp add: length_elements)
  have b2: "broadcast_rows fmul (elements iw) ?bd = Inr ?ibd"
    using assms by (intro broadcast_rows_same_length) (simp add: length_elements)
  show ?thesis
  proof (cases "s2 = 0")
    case True
    then show ?thesis
      by (simp add: smooth_l1_loss_def Inr b1 b2 py_div_def)
  next
    case False
    let ?f = "term32 s2"
    let ?il = "map (map_row ?f) ?ibd"
    have f: "(\<lambda>d. fadd (fmul (fmul (fmul d d) (to32 (rnd64 (s2 / 2))))
                            (mask_of (flt (fabs d) (to32 (rnd64 (1 / s2))))))
                     (fmul (fsub (fabs d) (to32 (rnd64 (0.5 / s2))))
                            (fsub (Fin 1) (mask_of (flt (fabs d) (to32 (rnd64 (1 / s2))))))))
             = ?f"
      by (intro ext) (simp add: term32_def Let_def)
    have b3: "broadcast_rows fmul (elements ow) ?il = Inr (map2 (zip_row fmul) (elements ow) ?il)"
      using assms by (intro broadcast_rows_same_length) (simp add: length_elements)
    have an: "(\<lambda>(pr, t, i, out).
             fadd (fmul (Fin (fst out)) (?f (fmul (Fin (fst i)) (fsub (Fin (fst pr)) (Fin (fst t))))))
                  (fmul (Fin (snd out)) (?f (fmul (Fin (snd i)) (fsub (Fin (snd pr)) (Fin (snd t)))))))
          = anchor32 s2"
      by (intro ext) (simp add: anchor32_def channel32_def split: prod.splits)
    have d: "py_div 1 s2 = Inr (rnd64 (1 / s2))" "py_div s2 2 = Inr (rnd64 (s2 / 2))"
        "py_div 0.5 s2 = Inr (rnd64 (0.5 / s2))"
      using False by (simp_all add: py_div_def)
    have sd: "sum_dims (rev (sort [1])) (T2 X) = Inr (T1 (map (\<lambda>r. fadd (fst r) (snd r)) X))"
      for X
      by simp
    have "smooth_l1_loss p tg iw ow sigma [1]
          = Inr (fmean (map (\<lambda>r. fadd (fst r) (snd r)) (map2 (zip_row fmul) (elements ow) ?il)))"
      unfolding smooth_l1_loss_def Inr sum.case b1 b2 Let_def d in_loss_box_rows f b3 sd
        reduced_mean.simps
      by (rule refl)
    also have "\<dots> = Inr (fmean (map (anchor32 s2) (zip p (zip tg (zip iw ow)))))"
      by (simp only: anchor_rows [OF assms] an)
    finally show ?thesis using False by (simp add: Inr)
  qed
qed

subsection \<open>A finite result is the exact one\<close>

lemma to32_rnd64_Fin: "to32 (rnd64 y) = Fin h \<Longrightarrow> h = y"
  by (auto simp: rnd64_def rnd32_Fin_iff split: if_splits)

lemma flt_threshold:
  assumes "\<bar>a\<bar> < f32_overflow"
  shows "flt (Fin a) (to32 (rnd64 c)) \<longleftrightarrow> a < c"
  using assms f32_le_f64 by (auto simp: rnd64_def rnd32_def)

lemma abs_less_of_square:
  assumes "\<bar>x * x\<bar> < f32_overflow"
  shows "\<bar>x\<bar> < f32_overflow"
proof (rule ccontr)
  assume "\<not> \<bar>x\<bar> < f32_overflow"
  then have g: "f32_overflow \<le> \<bar>x\<bar>" by simp
  have one: "1 \<le> f32_overflow"
    using f32_overflow_bounds(1) by (rule order_trans [rotated]) simp
  have "f32_overflow * 1 \<le> \<bar>x\<bar> * \<bar>x\<bar>"
    using g one f32_overflow_bounds(3) by (intro mult_mono) linarith+
  then show False using assms by (simp add: abs_mult)
qed

lemma term32_Fin:
  assumes "term32 s2 d = Fin v"
  shows "\<exists>x. d = Fin x \<and> v = in_loss_box_elem s2 x \<bar>x\<bar> (smoothL1_sign_elem s2 \<bar>x\<bar>)"
proof -
  let ?m = "mask_of (flt (fabs d) (to32 (rnd64 (1 / s2))))"
  from assms obtain q l where
    q: "fmul (fmul (fmul d d) (to32 (rnd64 (s2 / 2)))) ?m = Fin q" and
    l: "fmul (fsub (fabs d) (to32 (rnd64 (0.5 / s2)))) (fsub (Fin 1) ?m) = Fin l" and
    v: "v = q + l"
    by (auto simp: term32_def Let_def fadd_Fin_iff)
  from q obtain x h where d: "d = Fin x" and xx: "\<bar>x * x\<bar> < f32_overflow"
      and h: "to32 (rnd64 (s2 / 2)) = Fin h"
    by (auto simp: fmul_Fin_iff)
  from h have h': "h = s2 / 2" by (rule to32_rnd64_Fin)
  have ax: "\<bar>\<bar>x\<bar>\<bar> < f32_overflow" using abs_less_of_square [OF xx] by simp
  have m: "mask_of (flt (fabs (Fin x)) (to32 (rnd64 (1 / s2))))
           = Fin (smoothL1_sign_elem s2 \<bar>x\<bar>)"
    by (simp add: flt_threshold [OF ax] mask_of_def smoothL1_sign_elem_def)
  have xf: "fmul (Fin x) (Fin x) = Fin (x * x)"
    by (simp add: rnd32_fits [OF xx])
  from q have "fmul (fmul (Fin (x * x)) (Fin (s2 / 2))) (Fin (smoothL1_sign_elem s2 \<bar>x\<bar>)) = Fin q"
    by (simp only: d m h h' xf)
  then obtain a where "fmul (Fin (x * x)) (Fin (s2 / 2)) = Fin a"
      and "q = a * smoothL1_sign_elem s2 \<bar>x\<bar>"
    unfolding fmul_Fin_iff [of "fmul (Fin (x * x)) (Fin (s2 / 2))"] by auto
  then have q': "q = x * x * (s2 / 2) * smoothL1_sign_elem s2 \<bar>x\<bar>"
    by (auto simp: rnd32_Fin_iff)
  from l obtain off where off: "to32 (rnd64 (0.5 / s2)) = Fin off"
    by (auto simp: fmul_Fin_iff fsub_Fin_iff)
  from off have off': "off = 0.5 / s2" by (rule to32_rnd64_Fin)
  from l have "fmul (fsub (fabs (Fin x)) (Fin (0.5 / s2)))
                   (fsub (Fin 1) (Fin (smoothL1_sign_elem s2 \<bar>x\<bar>))) = Fin l"
    by (simp only: d m off off')
  then obtain b c where "fsub (Fin \<bar>x\<bar>) (Fin (0.5 / s2)) = Fin b"
      and "fsub (Fin 1) (Fin (smoothL1_sign_elem s2 \<bar>x\<bar>)) = Fin c" and "l = b * c"
    unfolding fmul_Fin_iff [of "fsub (fabs (Fin x)) (Fin (0.5 / s2))"] by auto
  then have l': "l = (\<bar>x\<bar> - 0.5 / s2) * (1 - smoothL1_sign_elem s2 \<bar>x\<bar>)"
    by (auto simp: fsub_Fin_iff)
  show ?thesis
    by (simp add: d v q' l' in_loss_box_elem_def power2_eq_square)
qed

lemma channel32_Fin:
  assumes "sigma \<noteq> 0" and "channel32 (sigma ^ 2) p t iw ow = Fin c"
  shows "c = spec_channel sigma p t iw ow"
proof -
  from assms(2) obtain u where
    u: "term32 (sigma ^ 2) (fmul (Fin iw) (fsub (Fin p) (Fin t))) = Fin u" and c: "c = ow * u"
    by (auto simp: channel32_def fmul_Fin_iff)
  from term32_Fin [OF u] obtain x where
    x: "fmul (Fin iw) (fsub (Fin p) (Fin t)) = Fin x" and
    u': "u = in_loss_box_elem (sigma ^ 2) x \<bar>x\<bar> (smoothL1_sign_elem (sigma ^ 2) \<bar>x\<bar>)"
    by blast
  from x have "x = iw * (p - t)"
    by (auto simp: fmul_Fin_iff fsub_Fin_iff)
  moreover have "u = smooth_l1_elem sigma x"
    by (simp add: u' smooth_l1_elem_def Let_def)
  ultimately show ?thesis
    by (simp add: c spec_channel_def smooth_l1_elem_spec [OF assms(1)])
qed

lemma anchor32_Fin:
  assumes "sigma \<noteq> 0" and "anchor32 (sigma ^ 2) a = Fin r"
  shows "r = spec_anchor sigma a"
proof -
  obtain p t iw ow where a: "a = (p, t, iw, ow)" by (cases a) auto
  from assms(2) obtain c1 c2 where
    "channel32 (sigma ^ 2) (fst p) (fst t) (fst iw) (fst ow) = Fin c1"
    "channel32 (sigma ^ 2) (snd p) (snd t) (snd iw) (snd ow) = Fin c2" "r = c1 + c2"
    by (auto simp: a anchor32_def fadd_Fin_iff)
  then show ?thesis
    using channel32_Fin [OF assms(1)] by (simp add: a spec_anchor_def)
qed

lemma py_square_exact:
  assumes "py_square sigma = Inr s2" and "s2 \<noteq> 0"
  shows "s2 = sigma ^ 2"
  using assms by (auto simp: py_square_def split: if_splits)

lemma smooth_l1_loss_finite:
  assumes "sigma \<noteq> 0"
    and len: "length tg = length p" "length iw = length p" "length ow = length p"
    and fin: "smooth_l1_loss p tg iw ow sigma [1] = Inr (Fin v)"
  shows "spec_regression_loss p tg iw ow sigma = Fin v"
proof -
  let ?zs = "zip p (zip tg (zip iw ow))"
  from fin obtain s2 where s2: "py_square sigma = Inr s2" "s2 \<noteq> 0"
      and m: "fmean (map (anchor32 s2) ?zs) = Fin v"
    by (auto simp: smooth_l1_loss_per_anchor [OF len] split: sum.splits if_splits)
  have sq: "s2 = sigma ^ 2" using s2 by (rule py_square_exact)
  from fmean_Fin [OF m] obtain rs where
    rs: "map (anchor32 s2) ?zs = map Fin rs" "rs \<noteq> []" "v = sum_list rs / real (length rs)"
    by blast
  from rs(1) have n: "length rs = length ?zs"
    by (metis length_map)
  have "map (spec_anchor sigma) ?zs = rs"
  proof (rule nth_equalityI)
    show "length (map (spec_anchor sigma) ?zs) = length rs" using n by simp
  next
    fix i assume "i < length (map (spec_anchor sigma) ?zs)"
    then have i: "i < length ?zs" by simp
    have "map (anchor32 s2) ?zs ! i = map Fin rs ! i" by (simp only: rs(1))
    then have "anchor32 (sigma ^ 2) (?zs ! i) = Fin (rs ! i)"
      using i n by (simp add: sq)
    from anchor32_Fin [OF assms(1) this] show "map (spec_anchor sigma) ?zs ! i = rs ! i"
      using i by simp
  qed
  then show ?thesis
    using rs(2,3) by (simp add: spec_regression_loss_def average_def)
qed

subsection \<open>Bounded arguments give a finite result\<close>

lemma fits_120: "\<bar>y\<bar> \<le> 2 ^ 120 \<Longrightarrow> \<bar>y\<bar> < f32_overflow"
proof -
  assume "\<bar>y\<bar> \<le> 2 ^ 120"
  also have "(2::real) ^ 120 < 2 ^ 127" by simp
  also have "\<dots> \<le> f32_overflow" by (rule f32_overflow_bounds)
  finally show ?thesis .
qed

lemma rnd32_120: "\<bar>y\<bar> \<le> 2 ^ 120 \<Longrightarrow> rnd32 y = Fin y"
  by (rule rnd32_fits) (rule fits_120)

lemma to32_rnd64_small:
  assumes "\<bar>y\<bar> \<le> 2 ^ 120"
  shows "to32 (rnd64 y) = Fin y"
proof -
  have "\<bar>y\<bar> < f64_overflow"
    using fits_120 [OF assms] f32_le_f64 by linarith
  then show ?thesis
    by (simp add: rnd64_fits rnd32_120 [OF assms])
qed

lemma sigma_square_bounds:
  fixes sigma :: real
  assumes "1 / 2 ^ 8 \<le> sigma" and "sigma \<le> 2 ^ 8"
  shows "1 / 2 ^ 16 \<le> sigma ^ 2" and "sigma ^ 2 \<le> 2 ^ 16" and "0 < sigma"
    and "1 / sigma ^ 2 \<le> 2 ^ 16"
proof -
  have p: "(0::real) < 1 / 2 ^ 8" by simp
  with assms(1) show s: "0 < sigma" by linarith
  have "(1 / 2 ^ 8) ^ 2 \<le> sigma ^ 2"
    using assms(1) by (intro power_mono) simp_all
  then show lo: "1 / 2 ^ 16 \<le> sigma ^ 2" by (simp add: power_divide)
  have "sigma ^ 2 \<le> (2 ^ 8) ^ 2"
    using assms(2) s by (intro power_mono) simp_all
  then show "sigma ^ 2 \<le> 2 ^ 16" by simp
  have pos: "0 < sigma ^ 2" using s by simp
  from lo pos show "1 / sigma ^ 2 \<le> 2 ^ 16"
    by (simp add: field_simps)
qed

lemma py_square_bounded:
  fixes sigma :: real
  assumes "1 / 2 ^ 8 \<le> sigma" and "sigma \<le> 2 ^ 8"
  shows "py_square sigma = Inr (sigma ^ 2)"
proof -
  note b = sigma_square_bounds [OF assms]
  have "sigma ^ 2 < 2 ^ 1023"
    using b(2) by (rule le_less_trans) simp
  then have hi: "\<not> f64_overflow \<le> sigma ^ 2"
    using f64_overflow_bounds(1) by linarith
  have "(1::real) / 2 ^ 1075 < 1 / 2 ^ 16"
    by (intro divide_strict_left_mono power_strict_increasing) simp_all
  then have lo: "\<not> sigma ^ 2 \<le> 1 / 2 ^ 1075"
    using b(1) by linarith
  show ?thesis unfolding py_square_def using hi lo by (simp only: if_False)
qed

lemma py_square_one: "py_square 1 = Inr 1"
  using py_square_bounded [of 1] by simp

lemma term32_exact:
  assumes "1 / 2 ^ 8 \<le> sigma" and "sigma \<le> 2 ^ 8" and x: "\<bar>x\<bar> \<le> 2 ^ 31"
  shows "term32 (sigma ^ 2) (Fin x) = Fin (smooth_l1_elem sigma x)"
    and "\<bar>smooth_l1_elem sigma x\<bar> \<le> 2 ^ 78"
proof -
  let ?s2 = "sigma ^ 2"
  let ?sg = "smoothL1_sign_elem ?s2 \<bar>x\<bar>"
  note b = sigma_square_bounds [OF assms(1,2)]
  have pos: "0 < ?s2" using b(3) by simp
  have thr: "to32 (rnd64 (1 / ?s2)) = Fin (1 / ?s2)"
    using b(4) pos by (intro to32_rnd64_small) simp
  have half: "to32 (rnd64 (?s2 / 2)) = Fin (?s2 / 2)"
    using b(2) pos by (intro to32_rnd64_small) simp
  have "0.5 / ?s2 = (1 / ?s2) / 2" by simp
  then have offb: "0 \<le> 0.5 / ?s2" "0.5 / ?s2 \<le> 2 ^ 15"
    using b(4) pos by simp_all
  have off: "to32 (rnd64 (0.5 / ?s2)) = Fin (0.5 / ?s2)"
    using offb by (intro to32_rnd64_small) simp
  have m: "mask_of (flt (fabs (Fin x)) (Fin (1 / ?s2))) = Fin ?sg"
    by (simp add: mask_of_def smoothL1_sign_elem_def)
  have sg: "?sg = 0 \<or> ?sg = 1" by (simp add: smoothL1_sign_elem_def)
  have xx: "\<bar>x * x\<bar> \<le> 2 ^ 62"
  proof -
    have "\<bar>x\<bar> * \<bar>x\<bar> \<le> 2 ^ 31 * 2 ^ 31" using x by (intro mult_mono) simp_all
    then show ?thesis by (simp add: abs_mult)
  qed
  have qh: "\<bar>x * x * (?s2 / 2)\<bar> \<le> 2 ^ 77"
  proof -
    have "\<bar>x * x\<bar> * \<bar>?s2 / 2\<bar> \<le> 2 ^ 62 * 2 ^ 15"
      using xx b(2) pos by (intro mult_mono) simp_all
    then show ?thesis by (simp add: abs_mult)
  qed
  have q: "\<bar>x * x * (?s2 / 2) * ?sg\<bar> \<le> 2 ^ 77"
    using sg qh by auto
  have num: "(2::real) ^ 31 + 2 ^ 15 \<le> 2 ^ 32" by simp
  have lb: "\<bar>\<bar>x\<bar> - 0.5 / ?s2\<bar> \<le> 2 ^ 32"
    unfolding abs_le_iff using x offb num by linarith
  have l: "\<bar>(\<bar>x\<bar> - 0.5 / ?s2) * (1 - ?sg)\<bar> \<le> 2 ^ 32"
    using sg lb by auto
  have tot: "\<bar>x * x * (?s2 / 2) * ?sg + (\<bar>x\<bar> - 0.5 / ?s2) * (1 - ?sg)\<bar> \<le> 2 ^ 78"
    using q l by (simp add: abs_le_iff)
  have e1: "fmul (Fin x) (Fin x) = Fin (x * x)"
    using xx by (simp add: rnd32_120)
  have e2: "fmul (Fin (x * x)) (Fin (?s2 / 2)) = Fin (x * x * (?s2 / 2))"
    using qh by (simp add: rnd32_120)
  have e3: "fmul (Fin (x * x * (?s2 / 2))) (Fin ?sg) = Fin (x * x * (?s2 / 2) * ?sg)"
    using q by (simp add: rnd32_120)
  have e4: "fsub (fabs (Fin x)) (Fin (0.5 / ?s2)) = Fin (\<bar>x\<bar> - 0.5 / ?s2)"
    using lb by (simp add: fsub_def rnd32_120)
  have e5: "fsub (Fin 1) (Fin ?sg) = Fin (1 - ?sg)"
    using sg by (auto simp: fsub_def rnd32_120)
  have e6: "fmul (Fin (\<bar>x\<bar> - 0.5 / ?s2)) (Fin (1 - ?sg)) = Fin ((\<bar>x\<bar> - 0.5 / ?s2) * (1 - ?sg))"
    using l by (simp add: rnd32_120)
  have e7: "fadd (Fin (x * x * (?s2 / 2) * ?sg)) (Fin ((\<bar>x\<bar> - 0.5 / ?s2) * (1 - ?sg)))
            = Fin (x * x * (?s2 / 2) * ?sg + (\<bar>x\<bar> - 0.5 / ?s2) * (1 - ?sg))"
    using tot by (simp add: rnd32_120)
  have val: "smooth_l1_elem sigma x
             = x * x * (?s2 / 2) * ?sg + (\<bar>x\<bar> - 0.5 / ?s2) * (1 - ?sg)"
    by (simp add: smooth_l1_elem_def in_loss_box_elem_def Let_def power2_eq_square)
  show "term32 ?s2 (Fin x) = Fin (smooth_l1_elem sigma x)"
    unfolding term32_def Let_def thr half off m e1 e2 e3 e4 e5 e6 e7 val
    by (rule refl)
  show "\<bar>smooth_l1_elem sigma x\<bar> \<le> 2 ^ 78"
    unfolding val by (rule tot)
qed

lemma channel32_exact:
  assumes "1 / 2 ^ 8 \<le> sigma" and "sigma \<le> 2 ^ 8"
    and "\<bar>p\<bar> \<le> 2 ^ 30" and "\<bar>t\<bar> \<le> 2 ^ 30" and "\<bar>iw\<bar> \<le> 1" and "\<bar>ow\<bar> \<le> 1"
  shows "channel32 (sigma ^ 2) p t iw ow = Fin (spec_channel sigma p t iw ow)"
    and "\<bar>spec_channel sigma p t iw ow\<bar> \<le> 2 ^ 78"
proof -
  let ?x = "iw * (p - t)"
  have nz: "sigma \<noteq> 0" using sigma_square_bounds(3) [OF assms(1,2)] by simp
  have d: "\<bar>p - t\<bar> \<le> 2 ^ 31" using assms(3,4) by (simp add: abs_le_iff)
  have x: "\<bar>?x\<bar> \<le> 2 ^ 31"
  proof -
    have "\<bar>iw\<bar> * \<bar>p - t\<bar> \<le> 1 * 2 ^ 31" using assms(5) d by (intro mult_mono) simp_all
    then show ?thesis by (simp add: abs_mult)
  qed
  note t = term32_exact [OF assms(1,2) x]
  have c: "\<bar>ow * smooth_l1_elem sigma ?x\<bar> \<le> 2 ^ 78"
  proof -
    have "\<bar>ow\<bar> * \<bar>smooth_l1_elem sigma ?x\<bar> \<le> 1 * 2 ^ 78"
      using assms(6) t(2) by (intro mult_mono) simp_all
    then show ?thesis by (simp add: abs_mult)
  qed
  have e1: "fsub (Fin p) (Fin t) = Fin (p - t)"
    using d by (simp add: fsub_def rnd32_120)
  have e2: "fmul (Fin iw) (Fin (p - t)) = Fin ?x"
    using x by (simp add: rnd32_120)
  have e3: "fmul (Fin ow) (Fin (smooth_l1_elem sigma ?x)) = Fin (ow * smooth_l1_elem sigma ?x)"
    using c by (simp add: rnd32_120)
  have val: "spec_channel sigma p t iw ow = ow * smooth_l1_elem sigma ?x"
    by (simp add: spec_channel_def smooth_l1_elem_spec [OF nz])
  show "channel32 (sigma ^ 2) p t iw ow = Fin (spec_channel sigma p t iw ow)"
    unfolding channel32_def e1 e2 t(1) e3 val by (rule refl)
  show "\<bar>spec_channel sigma p t iw ow\<bar> \<le> 2 ^ 78"
    unfolding val by (rule c)
qed

lemma anchor32_exact:
  assumes "1 / 2 ^ 8 \<le> sigma" and "sigma \<le> 2 ^ 8"
    and "row_within (2 ^ 30) p" and "row_within (2 ^ 30) t"
    and "row_within 1 iw" and "row_within 1 ow"
  shows "anchor32 (sigma ^ 2) (p, t, iw, ow) = Fin (spec_anchor sigma (p, t, iw, ow))"
    and "\<bar>spec_anchor sigma (p, t, iw, ow)\<bar> \<le> 2 ^ 79"
proof -
  note c1 = channel32_exact [OF assms(1,2), of "fst p" "fst t" "fst iw" "fst ow"]
  note c2 = channel32_exact [OF assms(1,2), of "snd p" "snd t" "snd iw" "snd ow"]
  have b1: "\<bar>spec_channel sigma (fst p) (fst t) (fst iw) (fst ow)\<bar> \<le> 2 ^ 78"
    using assms(3-6) by (intro c1(2)) (simp_all add: row_within_def)
  have b2: "\<bar>spec_channel sigma (snd p) (snd t) (snd iw) (snd ow)\<bar> \<le> 2 ^ 78"
    using assms(3-6) by (intro c2(2)) (simp_all add: row_within_def)
  have e1: "channel32 (sigma ^ 2) (fst p) (fst t) (fst iw) (fst ow)
            = Fin (spec_channel sigma (fst p) (fst t) (fst iw) (fst ow))"
    using assms(3-6) by (intro c1(1)) (simp_all add: row_within_def)
  have e2: "channel32 (sigma ^ 2) (snd p) (snd t) (snd iw) (snd ow)
            = Fin (spec_channel sigma (snd p) (snd t) (snd iw) (snd ow))"
    using assms(3-6) by (intro c2(1)) (simp_all add: row_within_def)
  have s: "\<bar>spec_anchor sigma (p, t, iw, ow)\<bar> \<le> 2 ^ 79"
    using b1 b2 by (simp add: spec_anchor_def abs_le_iff)
  show "anchor32 (sigma ^ 2) (p, t, iw, ow) = Fin (spec_anchor sigma (p, t, iw, ow))"
    using s by (simp add: anchor32_def e1 e2 spec_anchor_def rnd32_120)
  show "\<bar>spec_anchor sigma (p, t, iw, ow)\<bar> \<le> 2 ^ 79" by (rule s)
qed

lemma smooth_l1_loss_bounded:
  assumes len: "length tg = length p" "length iw = length p" "length ow = length p"
    and bd: "box_bounded sigma p tg iw ow"
  shows "smooth_l1_loss p tg iw ow sigma [1] = Inr (spec_regression_loss p tg iw ow sigma)"
proof -
  let ?zs = "zip p (zip tg (zip iw ow))"
  let ?rs = "map (spec_anchor sigma) ?zs"
  from bd have sg: "1 / 2 ^ 8 \<le> sigma" "sigma \<le> 2 ^ 8" and n: "length p \<le> 2 ^ 20"
    and rows: "list_all (row_within (2 ^ 30)) p" "list_all (row_within (2 ^ 30)) tg"
      "list_all (row_within 1) iw" "list_all (row_within 1) ow"
    by (simp_all add: box_bounded_def)
  have sq: "py_square sigma = Inr (sigma ^ 2)" using sg by (rule py_square_bounded)
  have nz: "sigma \<noteq> 0" using sigma_square_bounds(3) [OF sg] by simp
  have el: "anchor32 (sigma ^ 2) a = Fin (spec_anchor sigma a) \<and> \<bar>spec_anchor sigma a\<bar> \<le> 2 ^ 79"
    if "a \<in> set ?zs" for a
  proof -
    obtain pr t i out where a: "a = (pr, t, i, out)" by (cases a) auto
    from that have z1: "(pr, t, i, out) \<in> set (zip p (zip tg (zip iw ow)))"
      by (simp only: a)
    from z1 have m1: "pr \<in> set p" by (rule set_zip_leftD)
    from z1 have z2: "(t, i, out) \<in> set (zip tg (zip iw ow))" by (rule set_zip_rightD)
    from z2 have m2: "t \<in> set tg" by (rule set_zip_leftD)
    from z2 have z3: "(i, out) \<in> set (zip iw ow)" by (rule set_zip_rightD)
    from z3 have m3: "i \<in> set iw" by (rule set_zip_leftD)
    from z3 have m4: "out \<in> set ow" by (rule set_zip_rightD)
    note m1 m2 m3 m4
    with rows have "row_within (2 ^ 30) pr" "row_within (2 ^ 30) t" "row_within 1 i"
        "row_within 1 out"
      by (auto simp: list_all_iff)
    from anchor32_exact [OF sg this] show ?thesis by (simp add: a)
  qed
  have maps: "map (anchor32 (sigma ^ 2)) ?zs = map Fin ?rs"
    using el by simp
  have eq: "smooth_l1_loss p tg iw ow sigma [1] = Inr (fmean (map Fin ?rs))"
    by (simp add: smooth_l1_loss_per_anchor [OF len] sq nz maps)
  show ?thesis
  proof (cases "?rs = []")
    case True
    then have z: "?zs = []" by simp
    show ?thesis
      unfolding eq spec_regression_loss_def z
      by (simp add: average_def fmean_def fsum_def inf_times_def)
  next
    case False
    have b: "\<forall>x\<in>set ?rs. \<bar>x\<bar> \<le> 2 ^ 79" using el by auto
    have "real (length ?rs) \<le> 2 ^ 20"
    proof -
      have "length ?rs \<le> length p" by simp
      then have "length ?rs \<le> 2 ^ 20" using n by linarith
      then have "real (length ?rs) \<le> real (2 ^ 20)" by (rule of_nat_mono)
      then show ?thesis by simp
    qed
    then have "real (length ?rs) * 2 ^ 79 \<le> 2 ^ 20 * 2 ^ 79"
      by (intro mult_right_mono) simp_all
    also have "(2::real) ^ 20 * 2 ^ 79 < 2 ^ 127" by simp
    also have "\<dots> \<le> f32_overflow" by (rule f32_overflow_bounds)
    finally have fit: "real (length ?rs) * 2 ^ 79 < f32_overflow" .
    from fmean_bounded [OF False b fit] False show ?thesis
      by (simp add: eq spec_regression_loss_def average_def)
  qed
qed

subsection \<open>The regression loss against the specification\<close>

lemma term32_overflow: "term32 1 (Fin (2 ^ 64)) = NaN"
proof -
  have half: "to32 (rnd64 (1 / 2)) = Fin (1 / 2)" and one: "to32 (rnd64 1) = Fin 1"
    by (simp_all add: rnd64_def rnd32_def f64_overflow_def f32_overflow_def)
  have over: "fmul (Fin (2 ^ 64)) (Fin (2 ^ 64)) = PInf"
    by (simp add: rnd32_def f32_overflow_def)
  show ?thesis
    unfolding term32_def Let_def over
    by (simp add: half one mask_of_def inf_times_def)
qed

lemma anchor32_overflow: "anchor32 1 ((2 ^ 64, a), (0, b), (1, c), (d, e)) = NaN"
proof -
  have e1: "fsub (Fin (2 ^ 64)) (Fin 0) = Fin (2 ^ 64)"
    and e2: "fmul (Fin 1) (Fin (2 ^ 64)) = Fin (2 ^ 64)"
    by (simp_all add: fsub_def rnd32_def f32_overflow_def)
  have c: "channel32 1 (2 ^ 64) 0 1 d = NaN"
    unfolding channel32_def e1 e2 term32_overflow by simp
  show ?thesis
    unfolding anchor32_def prod.case fst_conv snd_conv c by simp
qed

lemma foldl_fadd_NaN: "foldl fadd NaN xs = NaN"
  by (induction xs) simp_all

lemma fmean_NaN_first: "fmean (NaN # xs) = NaN"
  by (simp add: fmean_def fsum_def foldl_fadd_NaN)

text \<open>
  C1. As stated (for every prediction and every \<open>sigma > 0\<close>), the claim fails where an
  intermediate value leaves the 32-bit format: with a prediction of \<open>2 ^ 64\<close>, a target of 0,
  weights 1 and \<open>sigma = 1\<close> the residual is \<open>d = 2 ^ 64\<close>, its square is an infinity, the
  mask is 0 and their product is not-a-number, so \<open>smooth_l1_loss\<close> returns not-a-number,
  where the definition of the specification gives \<open>2 ^ 64 - 1 / 2\<close>.
\<close>

theorem smooth_l1_loss_overflow_counterexample:
  "smooth_l1_loss [(2 ^ 64, 0)] [(0, 0)] [(1, 1)] [(1, 1)] 1 [1] = Inr NaN
   \<and> spec_regression_loss [(2 ^ 64, 0)] [(0, 0)] [(1, 1)] [(1, 1)] 1 = Fin (2 ^ 64 - 1 / 2)
   \<and> smooth_l1_loss [(2 ^ 64, 0)] [(0, 0)] [(1, 1)] [(1, 1)] 1 [1]
       \<noteq> Inr (spec_regression_loss [(2 ^ 64, 0)] [(0, 0)] [(1, 1)] [(1, 1)] 1)"
proof -
  have "smooth_l1_loss [(2 ^ 64, 0)] [(0, 0)] [(1, 1)] [(1, 1)] 1 [1]
        = (case py_square 1 of
             Inl e \<Rightarrow> Inl e
           | Inr sigma_2 \<Rightarrow>
               if sigma_2 = 0 then Inl ZeroDivisionError
               else Inr (fmean (map (anchor32 sigma_2)
                      (zip [(2 ^ 64, 0)] (zip [(0, 0)] (zip [(1, 1)] [(1, 1)]))))))"
    by (rule smooth_l1_loss_per_anchor) simp_all
  also have "\<dots> = Inr (fmean [anchor32 1 ((2 ^ 64, 0), (0, 0), (1, 1), (1, 1))])"
    unfolding py_square_one sum.case zip_Cons_Cons zip_Nil list.map by simp
  also have "\<dots> = Inr NaN"
    unfolding anchor32_overflow fmean_NaN_first by (rule refl)
  finally have a: "smooth_l1_loss [(2 ^ 64, 0)] [(0, 0)] [(1, 1)] [(1, 1)] 1 [1] = Inr NaN" .
  have b: "spec_regression_loss [(2 ^ 64, 0)] [(0, 0)] [(1, 1)] [(1, 1)] 1 = Fin (2 ^ 64 - 1 / 2)"
    by (simp add: spec_regression_loss_def spec_anchor_def spec_channel_def spec_term_def
        average_def)
  from a b show ?thesis by simp
qed

text \<open>
  C1, amended. For tensors with one row per anchor and every \<open>sigma > 0\<close> (with \<^verbatim>\<open>dim\<close> at
  its default, the channel dimension): whenever \<open>smooth_l1_loss\<close> returns a finite number,
  that is, whenever no intermediate value leaves the 32-bit format, the number is the
  regression loss of the specification (per element, with
  \<open>d = inside_weight \<cdot> (pred - target)\<close>, the term \<open>0.5 \<cdot> sigma\<^sup>2 \<cdot> d\<^sup>2\<close> when \<open>|d| < 1 / sigma\<^sup>2\<close> and
  \<open>|d| - 0.5 / sigma\<^sup>2\<close> otherwise, times the outside weight, summed over the two channels and
  averaged over the anchors), rounding aside; and this is the case at least when \<open>sigma\<close> lies
  between \<open>1 / 2 ^ 8\<close> and \<open>2 ^ 8\<close>, there are at most \<open>2 ^ 20\<close> anchors, predictions and targets
  have magnitude at most \<open>2 ^ 30\<close> and weights magnitude at most 1.
\<close>

theorem smooth_l1_loss_refines_spec_in_range:
  assumes "0 < sigma"
    and "length bbox_targets = length bbox_pred"
    and "length bbox_inside_weights = length bbox_pred"
    and "length bbox_outside_weights = length bbox_pred"
  shows "(\<forall>v. smooth_l1_loss bbox_pred bbox_targets bbox_inside_weights bbox_outside_weights
               sigma [1] = Inr (Fin v)
            \<longrightarrow> spec_regression_loss bbox_pred bbox_targets bbox_inside_weights
                  bbox_outside_weights sigma = Fin v)
     \<and> (box_bounded sigma bbox_pred bbox_targets bbox_inside_weights bbox_outside_weights
          \<longrightarrow> smooth_l1_loss bbox_pred bbox_targets bbox_inside_weights bbox_outside_weights
                sigma [1]
              = Inr (spec_regression_loss bbox_pred bbox_targets bbox_inside_weights
                       bbox_outside_weights sigma))"
proof -
  from assms(1) have nz: "sigma \<noteq> 0" by simp
  show ?thesis
    using smooth_l1_loss_finite [OF nz assms(2-4)] smooth_l1_loss_bounded [OF assms(2-4)]
    by blast
qed

theorem smooth_l1_loss_refines_spec_in_range_witness:
  "box_bounded 1 [(1, 2), (1 / 2, 0)] [(0, 0), (0, 0)] [(1, 1), (1, 1)]
       [(1 / 2, 1 / 2), (1 / 2, 1 / 2)]
   \<and> smooth_l1_loss [(1, 2), (1 / 2, 0)] [(0, 0), (0, 0)] [(1, 1), (1, 1)]
       [(1 / 2, 1 / 2), (1 / 2, 1 / 2)] 1 [1] = Inr (Fin (17 / 32))
   \<and> spec_regression_loss [(1, 2), (1 / 2, 0)] [(0, 0), (0, 0)] [(1, 1), (1, 1)]
              [(1 / 2, 1 / 2), (1 / 2, 1 / 2)] 1 = Fin (17 / 32)"
proof -
  let ?p = "[(1, 2), (1 / 2, 0)] :: row list" and ?t = "[(0, 0), (0, 0)] :: row list"
  let ?i = "[(1, 1), (1, 1)] :: row list" and ?o = "[(1 / 2, 1 / 2), (1 / 2, 1 / 2)] :: row list"
  have s: "(0::real) < 1" by simp
  have l: "length ?t = length ?p" "length ?i = length ?p" "length ?o = length ?p"
    by simp_all
  have b: "box_bounded 1 ?p ?t ?i ?o"
    by (simp add: box_bounded_def row_within_def)
  have v: "spec_regression_loss ?p ?t ?i ?o 1 = Fin (17 / 32)"
    by (simp add: spec_regression_loss_def spec_anchor_def spec_channel_def spec_term_def
        average_def power2_eq_square)
  from smooth_l1_loss_refines_spec_in_range [OF s l] b
  have "smooth_l1_loss ?p ?t ?i ?o 1 [1] = Inr (spec_regression_loss ?p ?t ?i ?o 1)"
    by blast
  with b v show ?thesis by simp
qed

subsection \<open>The loss term over the real numbers\<close>




section \<open>Properties of the RPN loss\<close>

lemma gather_filter:
  "map (\<lambda>i. f (zs ! i)) (filter (\<lambda>i. P (zs ! i)) [0..<length zs]) = map f (filter P zs)"
proof (induction zs rule: rev_induct)
  case Nil
  then show ?case by simp
next
  case (snoc z zs)
  have f: "filter (\<lambda>i. P ((zs @ [z]) ! i)) [0..<length zs]
           = filter (\<lambda>i. P (zs ! i)) [0..<length zs]"
    by (intro filter_cong refl) (simp add: nth_append)
  have m: "map (\<lambda>i. f ((zs @ [z]) ! i)) (filter (\<lambda>i. P (zs ! i)) [0..<length zs])
           = map (\<lambda>i. f (zs ! i)) (filter (\<lambda>i. P (zs ! i)) [0..<length zs])"
    by (intro map_cong refl) (simp add: nth_append)
  show ?case
    using snoc by (simp add: f m)
qed

lemma select_probs:
  assumes "length ps = length ls"
  shows "map (\<lambda>i. ps ! i) (nonzero_not_ignore ls) = map fst (labelled ps ls)"
proof -
  let ?zs = "zip ps ls"
  have len: "length ?zs = length ls" using assms by simp
  have sel: "filter (\<lambda>i. snd (?zs ! i) \<noteq> - 1) [0..<length ?zs] = nonzero_not_ignore ls"
    unfolding nonzero_not_ignore_def len using assms
    by (intro filter_cong refl) simp
  have "map (\<lambda>i. ps ! i) (nonzero_not_ignore ls)
        = map (\<lambda>i. fst (?zs ! i)) (nonzero_not_ignore ls)"
    using assms by (intro map_cong refl) (simp add: nonzero_not_ignore_def)
  also have "\<dots> = map (\<lambda>i. fst (?zs ! i))
                     (filter (\<lambda>i. snd (?zs ! i) \<noteq> - 1) [0..<length ?zs])"
    by (simp only: sel)
  also have "\<dots> = map fst (labelled ps ls)"
    unfolding labelled_def by (rule gather_filter)
  finally show ?thesis .
qed

lemma select_labels:
  assumes "length ps = length ls"
  shows "map (\<lambda>i. ls ! i) (nonzero_not_ignore ls) = map snd (labelled ps ls)"
proof -
  let ?zs = "zip ps ls"
  have len: "length ?zs = length ls" using assms by simp
  have sel: "filter (\<lambda>i. snd (?zs ! i) \<noteq> - 1) [0..<length ?zs] = nonzero_not_ignore ls"
    unfolding nonzero_not_ignore_def len using assms
    by (intro filter_cong refl) simp
  have "map (\<lambda>i. ls ! i) (nonzero_not_ignore ls)
        = map (\<lambda>i. snd (?zs ! i)) (nonzero_not_ignore ls)"
    using assms by (intro map_cong refl) (simp add: nonzero_not_ignore_def)
  also have "\<dots> = map (\<lambda>i. snd (?zs ! i))
                     (filter (\<lambda>i. snd (?zs ! i) \<noteq> - 1) [0..<length ?zs])"
    by (simp only: sel)
  also have "\<dots> = map snd (labelled ps ls)"
    unfolding labelled_def by (rule gather_filter)
  finally show ?thesis .
qed

lemma nonzero_in_range: "list_all (\<lambda>i. i < length ls) (nonzero_not_ignore ls)"
  by (simp add: nonzero_not_ignore_def list_all_iff)

lemma rpn_cross_entropy_labelled:
  assumes "length ps = length ls"
  shows "rpn_cross_entropy ps ls = spec_classification_loss ps ls"
proof -
  have a: "index_select ps (nonzero_not_ignore ls) = Inr (map fst (labelled ps ls))"
    using nonzero_in_range [of ls] assms
    by (simp add: index_select_def select_probs)
  have b: "index_select ls (nonzero_not_ignore ls) = Inr (map snd (labelled ps ls))"
    using nonzero_in_range [of ls] assms
    by (simp add: index_select_def select_labels)
  show ?thesis
    unfolding rpn_cross_entropy_def Let_def a b sum.case spec_classification_loss_def
    by (simp add: comp_def)
qed

lemma bce_elem_unclamped:
  assumes "exp (- 100) \<le> p" and "p \<le> 1 - exp (- 100)"
  shows "bce_elem p y = - (y * ln p + (1 - y) * ln (1 - p))"
proof -
  have e: "(0::real) < exp (- 100)" by simp
  have p: "0 < p" using assms(1) e by linarith
  have q: "0 < 1 - p" "exp (- 100) \<le> 1 - p" using assms(2) e by linarith+
  have "ln (exp (- 100)) \<le> ln p" using assms(1) e p by (simp only: ln_le_cancel_iff)
  then have lp: "- 100 \<le> ln p" by simp
  have "ln (exp (- 100)) \<le> ln (1 - p)" using q e by (simp only: ln_le_cancel_iff)
  then have lq: "- 100 \<le> ln (1 - p)" by simp
  show ?thesis
    using p q(1) lp lq by (simp add: bce_elem_def clamped_log_def max_def)
qed

text \<open>
  C2. With one probability and one label per anchor, the class loss of \<open>rpn_loss\<close> is the
  binary cross-entropy between the probabilities and the labels of exactly the anchors
  whose label is not Ignore (\<open>-1\<close>), and the probabilities of the Ignore anchors do not
  influence it. (Where no logarithm reaches the clamp, the elementwise loss is
  \<open>- (y \<cdot> ln p + (1 - y) \<cdot> ln (1 - p))\<close>.)
\<close>

theorem classification_loss_over_labelled:
  assumes "length rpn_cls_prob = length rpn_labels"
  shows "rpn_cross_entropy rpn_cls_prob rpn_labels
           = spec_classification_loss rpn_cls_prob rpn_labels
     \<and> (\<forall>probs'. length probs' = length rpn_labels
            \<and> (\<forall>i<length rpn_labels. rpn_labels ! i \<noteq> - 1 \<longrightarrow> probs' ! i = rpn_cls_prob ! i)
          \<longrightarrow> rpn_cross_entropy probs' rpn_labels = rpn_cross_entropy rpn_cls_prob rpn_labels)
     \<and> (\<forall>p y. exp (- 100) \<le> p \<and> p \<le> 1 - exp (- 100)
          \<longrightarrow> bce_elem p y = - (y * ln p + (1 - y) * ln (1 - p)))"
proof -
  have one: "rpn_cross_entropy rpn_cls_prob rpn_labels
           = spec_classification_loss rpn_cls_prob rpn_labels"
    using assms by (rule rpn_cross_entropy_labelled)
  have two: "rpn_cross_entropy probs' rpn_labels = rpn_cross_entropy rpn_cls_prob rpn_labels"
    if len: "length probs' = length rpn_labels"
      and agree: "\<forall>i<length rpn_labels. rpn_labels ! i \<noteq> - 1 \<longrightarrow> probs' ! i = rpn_cls_prob ! i"
    for probs'
  proof -
    have "map (\<lambda>i. probs' ! i) (nonzero_not_ignore rpn_labels)
          = map (\<lambda>i. rpn_cls_prob ! i) (nonzero_not_ignore rpn_labels)"
      using agree by (intro map_cong refl) (simp add: nonzero_not_ignore_def)
    then have "index_select probs' (nonzero_not_ignore rpn_labels)
               = index_select rpn_cls_prob (nonzero_not_ignore rpn_labels)"
      using len assms by (simp add: index_select_def)
    then show ?thesis
      by (simp add: rpn_cross_entropy_def)
  qed
  from one two bce_elem_unclamped show ?thesis by blast
qed

theorem classification_loss_over_labelled_witness:
  "length [1, 0, 1 / 2 :: real] = length [1, 0, - 1 :: int]
   \<and> labelled [1, 0, 1 / 2] [1, 0, - 1] = [(1, 1), (0, 0)]
   \<and> rpn_cross_entropy [1, 0, 1 / 2] [1, 0, - 1]
       = binary_cross_entropy [1, 0] [1, 0]
   \<and> rpn_cross_entropy [1, 0, 1 / 4] [1, 0, - 1] = rpn_cross_entropy [1, 0, 1 / 2] [1, 0, - 1]"
proof -
  let ?ps = "[1, 0, 1 / 2 :: real]" and ?ls = "[1, 0, - 1 :: int]"
  have len: "length ?ps = length ?ls" by simp
  have lab: "labelled ?ps ?ls = [(1, 1), (0, 0)]"
    by (simp add: labelled_def)
  note t = classification_loss_over_labelled [OF len]
  from t have a: "rpn_cross_entropy ?ps ?ls = spec_classification_loss ?ps ?ls"
    by blast
  have b: "spec_classification_loss ?ps ?ls = binary_cross_entropy [1, 0] [1, 0]"
    by (simp add: spec_classification_loss_def lab)
  have agree: "length [1, 0, 1 / 4 :: real] = length ?ls
      \<and> (\<forall>i<length ?ls. ?ls ! i \<noteq> - 1 \<longrightarrow> [1, 0, 1 / 4 :: real] ! i = ?ps ! i)"
    by (simp add: nth_Cons' )
  from t agree have c: "rpn_cross_entropy [1, 0, 1 / 4] ?ls = rpn_cross_entropy ?ps ?ls"
    by blast
  from len lab a b c show ?thesis by (simp only:)
qed

text \<open>
  C3. As stated (a guarded fallback value when every anchor is Ignore), the claim fails: the
  class loss is then the mean over an empty selection, which is not-a-number.
\<close>

theorem all_ignore_counterexample:
  "rpn_cross_entropy [1 / 2, 1 / 4] [- 1, - 1] = Inr NaN
   \<and> rpn_loss [1 / 2, 1 / 4] [- 1, - 1] [0, 0, 0, 0] [0, 0, 0, 0] [0, 0, 0, 0] [0, 0, 0, 0] 1 [1] 1
       = Inr NaN
   \<and> \<not> (\<exists>v. rpn_cross_entropy [1 / 2, 1 / 4] [- 1, - 1] = Inr (Fin v))"
proof -
  have ce: "rpn_cross_entropy [1 / 2, 1 / 4] [- 1, - 1] = Inr NaN"
    by (simp add: rpn_cross_entropy_def nonzero_not_ignore_def index_select_def
        binary_cross_entropy_def fmean_def fsum_def inf_times_def upt_conv_Cons)
  have "smooth_l1_loss [(0, 0), (0, 0)] [(0, 0), (0, 0)] [(0, 0), (0, 0)] [(0, 0), (0, 0)] 1 [1]
        = Inr (fmean (map (anchor32 1)
            (zip [(0, 0), (0, 0)] (zip [(0, 0), (0, 0)] (zip [(0, 0), (0, 0)] [(0, 0), (0, 0)])))))"
    by (simp add: smooth_l1_loss_per_anchor py_square_one)
  then obtain r where
    "rpn_loss_box [0, 0, 0, 0] [0, 0, 0, 0] [0, 0, 0, 0] [0, 0, 0, 0] 1 [1] = Inr r"
    by (simp add: rpn_loss_box_def)
  then have "rpn_loss [1 / 2, 1 / 4] [- 1, - 1] [0, 0, 0, 0] [0, 0, 0, 0] [0, 0, 0, 0]
               [0, 0, 0, 0] 1 [1] 1 = Inr NaN"
    by (simp add: rpn_loss_def ce)
  with ce show ?thesis by simp
qed

text \<open>
  C3, amended. When every anchor is labelled Ignore the class loss is not guarded: it is
  the cross-entropy of an empty selection, not-a-number, for every probability tensor; and
  \<open>rpn_loss\<close> then never returns a number, whatever the box tensors, \<open>sigma\<close> and
  \<open>loss_box_weight\<close>.
\<close>

theorem all_ignore_loss_is_nan:
  assumes "list_all (\<lambda>l. l = - 1) rpn_labels"
  shows "rpn_cross_entropy rpn_cls_prob rpn_labels = Inr NaN
     \<and> (\<forall>bp bt iw ow sigma dims w v.
          rpn_loss rpn_cls_prob rpn_labels bp bt iw ow sigma dims w \<noteq> Inr (Fin v))"
proof -
  have "nonzero_not_ignore rpn_labels = []"
    using assms by (auto simp: nonzero_not_ignore_def filter_empty_conv list_all_iff)
  then have ce: "rpn_cross_entropy rpn_cls_prob rpn_labels = Inr NaN"
    by (simp add: rpn_cross_entropy_def index_select_def binary_cross_entropy_def fmean_def
        fsum_def inf_times_def)
  have "rpn_loss rpn_cls_prob rpn_labels bp bt iw ow sigma dims w \<noteq> Inr (Fin v)"
    for bp bt iw ow sigma dims w v
    by (simp add: rpn_loss_def ce split: sum.splits)
  with ce show ?thesis by blast
qed

theorem all_ignore_loss_is_nan_witness:
  "list_all (\<lambda>l. l = - 1) [- 1, - 1 :: int]
   \<and> rpn_cross_entropy [1 / 2, 1 / 4] [- 1, - 1] = Inr NaN
   \<and> rpn_loss [1 / 2, 1 / 4] [- 1, - 1] [1, 2, 3, 4] [0, 0, 0, 0] [1, 1, 1, 1] [1, 1, 1, 1] 1 [1] 1
       \<noteq> Inr (Fin 0)"
proof -
  have h: "list_all (\<lambda>l. l = - 1) [- 1, - 1 :: int]" by simp
  from all_ignore_loss_is_nan [OF h, of "[1 / 2, 1 / 4]"] h show ?thesis by blast
qed

subsection \<open>Sign and size of the two components\<close>

lemma clamped_log_bounds: "x \<le> 1 \<Longrightarrow> clamped_log x \<le> 0" "- 100 \<le> clamped_log x"
  by (simp_all add: clamped_log_def)

lemma bce_elem_bounds:
  assumes "0 \<le> p" and "p \<le> 1" and "y = 0 \<or> y = 1"
  shows "0 \<le> bce_elem p y" and "bce_elem p y \<le> 100"
proof -
  have a: "clamped_log p \<le> 0" using assms(2) by (rule clamped_log_bounds)
  have b: "clamped_log (1 - p) \<le> 0" using assms(1) by (intro clamped_log_bounds) simp
  note c = clamped_log_bounds(2) [of p] clamped_log_bounds(2) [of "1 - p"]
  show "0 \<le> bce_elem p y" using a b assms(3) by (auto simp: bce_elem_def)
  show "bce_elem p y \<le> 100" using c assms(3) by (auto simp: bce_elem_def)
qed

lemma sum_list_le_length:
  fixes rs :: "real list"
  assumes "\<forall>x\<in>set rs. x \<le> M"
  shows "sum_list rs \<le> real (length rs) * M"
  using assms by (induction rs) (auto simp: algebra_simps)

lemma abs_sum_list_le_length:
  fixes rs :: "real list"
  assumes "\<forall>x\<in>set rs. \<bar>x\<bar> \<le> M"
  shows "\<bar>sum_list rs\<bar> \<le> real (length rs) * M"
  using assms
proof (induction rs)
  case Nil
  then show ?case by simp
next
  case (Cons x rs)
  then have "\<bar>x\<bar> \<le> M" "\<bar>sum_list rs\<bar> \<le> real (length rs) * M" by simp_all
  then have "\<bar>x + sum_list rs\<bar> \<le> M + real (length rs) * M" by linarith
  then show ?case by (simp add: algebra_simps)
qed

lemma average_bounds:
  fixes rs :: "real list"
  assumes "rs \<noteq> []" and "\<forall>x\<in>set rs. 0 \<le> x \<and> x \<le> M"
  shows "0 \<le> sum_list rs / real (length rs)" and "sum_list rs / real (length rs) \<le> M"
proof -
  have n: "0 < real (length rs)" using assms(1) by simp
  have "0 \<le> sum_list rs" using assms(2) by (intro sum_list_nonneg) simp
  then show "0 \<le> sum_list rs / real (length rs)" by simp
  have "sum_list rs \<le> real (length rs) * M"
    using assms(2) by (intro sum_list_le_length) simp
  then show "sum_list rs / real (length rs) \<le> M"
    using n by (simp add: field_simps)
qed

lemma spec_term_nonneg:
  assumes "sigma \<noteq> 0"
  shows "0 \<le> spec_term sigma d"
proof (cases "\<bar>d\<bar> < 1 / sigma ^ 2")
  case True
  then show ?thesis by (simp add: spec_term_def)
next
  case False
  have "0.5 / sigma ^ 2 \<le> 1 / sigma ^ 2"
    by (intro divide_right_mono) simp_all
  also have "\<dots> \<le> \<bar>d\<bar>" using False by simp
  finally show ?thesis
    using False by (simp add: spec_term_def)
qed

lemma spec_anchor_nonneg:
  assumes "sigma \<noteq> 0" and "0 \<le> fst ow" and "0 \<le> snd ow"
  shows "0 \<le> spec_anchor sigma (p, t, iw, ow)"
  using assms spec_term_nonneg [OF assms(1)]
  by (simp add: spec_anchor_def spec_channel_def)

lemma view_2_even:
  "length xs = 2 * n \<Longrightarrow>
     \<exists>rows. view_2 xs = Inr rows \<and> length rows = n
        \<and> (\<forall>r\<in>set rows. fst r \<in> set xs \<and> snd r \<in> set xs)"
proof (induction xs arbitrary: n rule: view_2.induct)
  case 1
  then show ?case by simp
next
  case (2 x)
  then show ?case by auto
next
  case (3 x y zs)
  then obtain m where n: "n = Suc m" and m: "length zs = 2 * m"
    by (cases n) auto
  from "3.IH" [OF m] obtain rows where
    "view_2 zs = Inr rows" "length rows = m" "\<forall>r\<in>set rows. fst r \<in> set zs \<and> snd r \<in> set zs"
    by blast
  then show ?case by (simp add: n)
qed

lemma zip4_members:
  assumes "(pr, t, i, out) \<in> set (zip p (zip tg (zip iw ow)))"
  shows "pr \<in> set p" and "t \<in> set tg" and "i \<in> set iw" and "out \<in> set ow"
proof -
  from assms show "pr \<in> set p" by (rule set_zip_leftD)
  from assms have z2: "(t, i, out) \<in> set (zip tg (zip iw ow))" by (rule set_zip_rightD)
  from z2 show "t \<in> set tg" by (rule set_zip_leftD)
  from z2 have z3: "(i, out) \<in> set (zip iw ow)" by (rule set_zip_rightD)
  from z3 show "i \<in> set iw" by (rule set_zip_leftD)
  from z3 show "out \<in> set ow" by (rule set_zip_rightD)
qed

text \<open>The box loss of valid arguments: the views succeed, and the loss is that of the rows.\<close>

lemma rpn_loss_box_rows:
  assumes n: "0 < n"
    and "length bp = 2 * n" and "length bt = 2 * n" and "length iw = 2 * n"
    and "length ow = 2 * n"
  shows "\<exists>P T I W. length P = n \<and> length T = n \<and> length I = n \<and> length W = n
       \<and> rpn_loss_box bp bt iw ow sigma dims = smooth_l1_loss P T I W sigma dims
       \<and> (\<forall>r\<in>set P. fst r \<in> set bp \<and> snd r \<in> set bp)
       \<and> (\<forall>r\<in>set T. fst r \<in> set bt \<and> snd r \<in> set bt)
       \<and> (\<forall>r\<in>set I. fst r \<in> set iw \<and> snd r \<in> set iw)
       \<and> (\<forall>r\<in>set W. fst r \<in> set ow \<and> snd r \<in> set ow)"
proof -
  from view_2_even [OF assms(2)] obtain P where P: "view_2 bp = Inr P" "length P = n"
      "\<forall>r\<in>set P. fst r \<in> set bp \<and> snd r \<in> set bp" by blast
  from view_2_even [OF assms(3)] obtain T where T: "view_2 bt = Inr T" "length T = n"
      "\<forall>r\<in>set T. fst r \<in> set bt \<and> snd r \<in> set bt" by blast
  from view_2_even [OF assms(4)] obtain I where I: "view_2 iw = Inr I" "length I = n"
      "\<forall>r\<in>set I. fst r \<in> set iw \<and> snd r \<in> set iw" by blast
  from view_2_even [OF assms(5)] obtain W where W: "view_2 ow = Inr W" "length W = n"
      "\<forall>r\<in>set W. fst r \<in> set ow \<and> snd r \<in> set ow" by blast
  have "rpn_loss_box bp bt iw ow sigma dims = smooth_l1_loss P T I W sigma dims"
    by (simp add: rpn_loss_box_def P T I W)
  with P T I W show ?thesis by blast
qed

lemma spec_regression_loss_nonneg:
  assumes nz: "sigma \<noteq> 0"
    and W: "\<forall>r\<in>set W. 0 \<le> fst r \<and> 0 \<le> snd r"
    and v: "spec_regression_loss P T I W sigma = Fin r"
  shows "0 \<le> r"
proof -
  let ?rs = "map (spec_anchor sigma) (zip P (zip T (zip I W)))"
  from v have ne: "?rs \<noteq> []" and r: "r = sum_list ?rs / real (length ?rs)"
    by (auto simp: spec_regression_loss_def average_def split: if_splits)
  have "\<forall>x\<in>set ?rs. 0 \<le> x"
  proof
    fix x assume "x \<in> set ?rs"
    then obtain a where a: "a \<in> set (zip P (zip T (zip I W)))" and x: "x = spec_anchor sigma a"
      by auto
    obtain pr t i out where q: "a = (pr, t, i, out)" by (cases a) auto
    from a have "out \<in> set W" unfolding q by (rule zip4_members)
    with W have "0 \<le> fst out" "0 \<le> snd out" by auto
    then show "0 \<le> x" unfolding x q by (intro spec_anchor_nonneg nz)
  qed
  then have "0 \<le> sum_list ?rs" by (intro sum_list_nonneg) blast
  then show ?thesis by (simp add: r)
qed

lemma rpn_loss_box_finite_nonneg:
  assumes n: "0 < n" and nz: "sigma \<noteq> 0"
    and len: "length bp = 2 * n" "length bt = 2 * n" "length iw = 2 * n" "length ow = 2 * n"
    and ow: "list_all (\<lambda>w. 0 \<le> w) ow"
    and fin: "rpn_loss_box bp bt iw ow sigma [1] = Inr (Fin r)"
  shows "0 \<le> r"
proof -
  from rpn_loss_box_rows [OF n len, of sigma "[1]"] obtain P T I W where
    l: "length P = n" "length T = n" "length I = n" "length W = n"
    and eq: "rpn_loss_box bp bt iw ow sigma [1] = smooth_l1_loss P T I W sigma [1]"
    and W: "\<forall>r\<in>set W. fst r \<in> set ow \<and> snd r \<in> set ow"
    by blast
  have Wn: "\<forall>r\<in>set W. 0 \<le> fst r \<and> 0 \<le> snd r"
    using W ow by (auto simp: list_all_iff)
  have "smooth_l1_loss P T I W sigma [1] = Inr (Fin r)" using fin eq by simp
  then have "spec_regression_loss P T I W sigma = Fin r"
    using l by (intro smooth_l1_loss_finite nz) simp_all
  with nz Wn show ?thesis by (rule spec_regression_loss_nonneg)
qed

lemma rpn_loss_box_bounded:
  assumes n: "0 < n" and n20: "n \<le> 2 ^ 20"
    and sg: "1 / 2 ^ 8 \<le> sigma" "sigma \<le> 2 ^ 8"
    and len: "length bp = 2 * n" "length bt = 2 * n" "length iw = 2 * n" "length ow = 2 * n"
    and bp: "list_all (\<lambda>x. \<bar>x\<bar> \<le> 2 ^ 30) bp" and bt: "list_all (\<lambda>x. \<bar>x\<bar> \<le> 2 ^ 30) bt"
    and iw: "list_all (\<lambda>x. \<bar>x\<bar> \<le> 1) iw" and ow: "list_all (\<lambda>x. \<bar>x\<bar> \<le> 1) ow"
  shows "\<exists>r. rpn_loss_box bp bt iw ow sigma [1] = Inr (Fin r) \<and> \<bar>r\<bar> \<le> 2 ^ 79"
proof -
  from rpn_loss_box_rows [OF n len, of sigma "[1]"] obtain P T I W where
    l: "length P = n" "length T = n" "length I = n" "length W = n"
    and eq: "rpn_loss_box bp bt iw ow sigma [1] = smooth_l1_loss P T I W sigma [1]"
    and m: "\<forall>r\<in>set P. fst r \<in> set bp \<and> snd r \<in> set bp"
      "\<forall>r\<in>set T. fst r \<in> set bt \<and> snd r \<in> set bt"
      "\<forall>r\<in>set I. fst r \<in> set iw \<and> snd r \<in> set iw"
      "\<forall>r\<in>set W. fst r \<in> set ow \<and> snd r \<in> set ow"
    by blast
  have rows: "list_all (row_within (2 ^ 30)) P" "list_all (row_within (2 ^ 30)) T"
      "list_all (row_within 1) I" "list_all (row_within 1) W"
    using m bp bt iw ow by (auto simp: list_all_iff row_within_def)
  have bb: "box_bounded sigma P T I W"
    using sg n20 l rows by (simp add: box_bounded_def)
  let ?zs = "zip P (zip T (zip I W))"
  let ?rs = "map (spec_anchor sigma) ?zs"
  have v: "smooth_l1_loss P T I W sigma [1] = Inr (spec_regression_loss P T I W sigma)"
    using l bb by (intro smooth_l1_loss_bounded) simp_all
  have ne: "?rs \<noteq> []" using l n by auto
  have b: "\<forall>x\<in>set ?rs. \<bar>x\<bar> \<le> 2 ^ 79"
  proof
    fix x assume "x \<in> set ?rs"
    then obtain a where a: "a \<in> set ?zs" and x: "x = spec_anchor sigma a" by auto
    obtain pr t i out where q: "a = (pr, t, i, out)" by (cases a) auto
    note mem = zip4_members [OF a [unfolded q]]
    from mem rows have "row_within (2 ^ 30) pr" "row_within (2 ^ 30) t" "row_within 1 i"
        "row_within 1 out"
      by (auto simp: list_all_iff)
    from anchor32_exact(2) [OF sg this] show "\<bar>x\<bar> \<le> 2 ^ 79" by (simp add: x q)
  qed
  have "\<bar>sum_list ?rs\<bar> \<le> real (length ?rs) * 2 ^ 79"
    using b by (rule abs_sum_list_le_length)
  then have "\<bar>sum_list ?rs / real (length ?rs)\<bar> \<le> 2 ^ 79"
    using ne by (simp add: field_simps)
  then show ?thesis
    using ne by (simp add: eq v spec_regression_loss_def average_def)
qed

text \<open>The class loss of valid arguments: the mean of elementwise losses between 0 and 100.\<close>

lemma rpn_cross_entropy_valid:
  assumes len: "length ps = length ls"
    and ps: "list_all (\<lambda>p. 0 \<le> p \<and> p \<le> 1) ps"
    and ls: "list_all (\<lambda>l. l = - 1 \<or> l = 0 \<or> l = 1) ls"
    and ex: "list_ex (\<lambda>l. l \<noteq> - 1) ls"
  shows "\<exists>es. rpn_cross_entropy ps ls = Inr (fmean (map Fin es)) \<and> es \<noteq> []
       \<and> length es \<le> length ls \<and> (\<forall>x\<in>set es. 0 \<le> x \<and> x \<le> 100)"
proof -
  let ?L = "labelled ps ls"
  let ?es = "map (\<lambda>a. bce_elem (fst a) (real_of_int (snd a))) ?L"
  have el: "0 \<le> fst a \<and> fst a \<le> 1 \<and> (snd a = 0 \<or> snd a = 1)" if "a \<in> set ?L" for a
  proof -
    from that have z: "a \<in> set (zip ps ls)" and ni: "snd a \<noteq> - 1"
      by (auto simp: labelled_def)
    obtain p l where a: "a = (p, l)" by (cases a)
    from z have "fst a \<in> set ps" "snd a \<in> set ls"
      unfolding a by (auto dest: set_zip_leftD set_zip_rightD)
    with ps ls ni show ?thesis by (auto simp: list_all_iff)
  qed
  have inp: "list_all (\<lambda>p. 0 \<le> p \<and> p \<le> 1) (map fst ?L)"
    using el by (auto simp: list_all_iff)
  have tgt: "list_all (\<lambda>y. 0 \<le> y \<and> y \<le> 1) (map (\<lambda>a. real_of_int (snd a)) ?L)"
    unfolding list_all_iff
  proof
    fix y assume "y \<in> set (map (\<lambda>a. real_of_int (snd a)) ?L)"
    then obtain a where a: "a \<in> set ?L" and y: "y = real_of_int (snd a)" by auto
    from el [OF a] have "snd a = 0 \<or> snd a = 1" by simp
    then show "0 \<le> y \<and> y \<le> 1" unfolding y by auto
  qed
  have m2: "map2 bce_elem (map fst ?L) (map (\<lambda>a. real_of_int (snd a)) ?L) = ?es"
    by (rule map2_map_map)
  have eq: "rpn_cross_entropy ps ls = Inr (fmean (map Fin ?es))"
    using inp tgt
    by (simp add: rpn_cross_entropy_labelled [OF len] spec_classification_loss_def
        binary_cross_entropy_def m2)
  from ex obtain i where i: "i < length ls" "ls ! i \<noteq> - 1"
    by (auto simp: list_ex_iff in_set_conv_nth)
  then have "(ps ! i, ls ! i) \<in> set (zip ps ls)"
    using len by (auto simp: set_zip)
  with i(2) have "(ps ! i, ls ! i) \<in> set ?L" by (simp add: labelled_def)
  then have ne: "?es \<noteq> []" by auto
  have "length ?L \<le> length (zip ps ls)" unfolding labelled_def by (rule length_filter_le)
  then have le: "length ?es \<le> length ls" using len by simp
  have nn: "\<forall>x\<in>set ?es. 0 \<le> x \<and> x \<le> 100"
  proof
    fix x assume "x \<in> set ?es"
    then obtain a where a: "a \<in> set ?L" and x: "x = bce_elem (fst a) (real_of_int (snd a))"
      by auto
    from el [OF a] have "0 \<le> fst a" "fst a \<le> 1" "real_of_int (snd a) = 0 \<or> real_of_int (snd a) = 1"
      by auto
    from bce_elem_bounds [OF this] show "0 \<le> x \<and> x \<le> 100" by (simp add: x)
  qed
  from eq ne le nn show ?thesis by blast
qed

subsection \<open>The total loss\<close>

text \<open>
  C4. As stated (finite for every valid input), the claim fails where an intermediate value
  of the box loss leaves the 32-bit format: the input below satisfies every condition of
  the claim (probabilities in \<open>[0, 1]\<close>, labels 0 and 1, non-negative weights, \<open>sigma = 1\<close>,
  \<open>loss_box_weight = 1\<close>), and with the box prediction \<open>2 ^ 64\<close> the square of the residual is
  an infinity, its product with the mask 0 is not-a-number, and so is the total.
\<close>

theorem rpn_loss_overflow_counterexample:
  "length [1, 0 :: real] = length [1, 0 :: int]
   \<and> list_all (\<lambda>p. 0 \<le> p \<and> p \<le> 1) [1, 0 :: real]
   \<and> list_all (\<lambda>l. l = - 1 \<or> l = 0 \<or> l = 1) [1, 0 :: int]
   \<and> list_ex (\<lambda>l. l \<noteq> - 1) [1, 0 :: int]
   \<and> list_all (\<lambda>w. 0 \<le> w) [1, 1, 1, 1 :: real]
   \<and> list_all (\<lambda>w. 0 \<le> w) [1 / 2, 1 / 2, 1 / 2, 1 / 2 :: real]
   \<and> rpn_loss [1, 0] [1, 0] [2 ^ 64, 0, 0, 0] [0, 0, 0, 0] [1, 1, 1, 1]
        [1 / 2, 1 / 2, 1 / 2, 1 / 2] 1 [1] 1 = Inr NaN"
proof -
  have ce: "rpn_cross_entropy [1, 0] [1, 0] = Inr (Fin 0)"
    by (simp add: rpn_cross_entropy_def nonzero_not_ignore_def index_select_def
        binary_cross_entropy_def bce_elem_def clamped_log_def fmean_def fsum_def rnd32_def
        f32_overflow_def upt_conv_Cons)
  have "smooth_l1_loss [(2 ^ 64, 0), (0, 0)] [(0, 0), (0, 0)] [(1, 1), (1, 1)]
          [(1 / 2, 1 / 2), (1 / 2, 1 / 2)] 1 [1]
        = (case py_square 1 of
             Inl e \<Rightarrow> Inl e
           | Inr sigma_2 \<Rightarrow>
               if sigma_2 = 0 then Inl ZeroDivisionError
               else Inr (fmean (map (anchor32 sigma_2)
                      (zip [(2 ^ 64, 0), (0, 0)] (zip [(0, 0), (0, 0)]
                         (zip [(1, 1), (1, 1)] [(1 / 2, 1 / 2), (1 / 2, 1 / 2)]))))))"
    by (rule smooth_l1_loss_per_anchor) simp_all
  also have "\<dots> = Inr (fmean [anchor32 1 ((2 ^ 64, 0), (0, 0), (1, 1), (1 / 2, 1 / 2)),
                               anchor32 1 ((0, 0), (0, 0), (1, 1), (1 / 2, 1 / 2))])"
    unfolding py_square_one sum.case zip_Cons_Cons zip_Nil list.map by simp
  also have "\<dots> = Inr NaN"
    unfolding anchor32_overflow fmean_NaN_first by (rule refl)
  finally have "rpn_loss_box [2 ^ 64, 0, 0, 0] [0, 0, 0, 0] [1, 1, 1, 1]
                  [1 / 2, 1 / 2, 1 / 2, 1 / 2] 1 [1] = Inr NaN"
    by (simp add: rpn_loss_box_def)
  then have "rpn_loss [1, 0] [1, 0] [2 ^ 64, 0, 0, 0] [0, 0, 0, 0] [1, 1, 1, 1]
        [1 / 2, 1 / 2, 1 / 2, 1 / 2] 1 [1] 1 = Inr NaN"
    by (simp add: rpn_loss_def ce rnd32_def f32_overflow_def)
  then show ?thesis by simp
qed

text \<open>
  C4, amended. For every valid input (one probability and one label per anchor,
  probabilities in \<open>[0, 1]\<close>, labels in \<open>{-1, 0, 1}\<close> with at least one that is not Ignore, two
  box channels per anchor, non-negative outside weights, \<open>sigma > 0\<close> and
  \<open>loss_box_weight \<ge> 0\<close>; \<^verbatim>\<open>dim\<close> at its default): whenever \<open>rpn_loss\<close> returns a finite
  number, that number is the class loss plus \<open>loss_box_weight\<close> times the box loss, both of
  them finite and non-negative, and it is non-negative; and \<open>rpn_loss\<close> does return such a
  number when no intermediate value leaves the 32-bit format, which is the case at least
  when \<open>sigma\<close> lies between \<open>1 / 2 ^ 8\<close> and \<open>2 ^ 8\<close>, there are at most \<open>2 ^ 20\<close> anchors, box
  predictions and targets have magnitude at most \<open>2 ^ 30\<close>, weights are at most 1 and
  \<open>loss_box_weight\<close> is at most \<open>2 ^ 20\<close>. (The sign of the inside weights is not needed.)
\<close>

theorem rpn_loss_total_nonneg_in_range:
  assumes "length rpn_cls_prob = length rpn_labels"
    and "list_all (\<lambda>p. 0 \<le> p \<and> p \<le> 1) rpn_cls_prob"
    and "list_all (\<lambda>l. l = - 1 \<or> l = 0 \<or> l = 1) rpn_labels"
    and "list_ex (\<lambda>l. l \<noteq> - 1) rpn_labels"
    and "length rpn_bbox_pred = 2 * length rpn_labels"
    and "length rpn_bbox_targets = 2 * length rpn_labels"
    and "length rpn_bbox_inside_weights = 2 * length rpn_labels"
    and "length rpn_bbox_outside_weights = 2 * length rpn_labels"
    and "list_all (\<lambda>w. 0 \<le> w) rpn_bbox_outside_weights"
    and "0 < sigma" and "0 \<le> loss_box_weight"
  shows "(\<forall>v. rpn_loss rpn_cls_prob rpn_labels rpn_bbox_pred rpn_bbox_targets
               rpn_bbox_inside_weights rpn_bbox_outside_weights sigma [1] loss_box_weight
             = Inr (Fin v)
           \<longrightarrow> (\<exists>c r. rpn_cross_entropy rpn_cls_prob rpn_labels = Inr (Fin c)
                 \<and> rpn_loss_box rpn_bbox_pred rpn_bbox_targets rpn_bbox_inside_weights
                      rpn_bbox_outside_weights sigma [1] = Inr (Fin r)
                 \<and> v = c + loss_box_weight * r \<and> 0 \<le> c \<and> 0 \<le> r \<and> 0 \<le> v))
     \<and> (loss_bounded sigma rpn_labels rpn_bbox_pred rpn_bbox_targets rpn_bbox_inside_weights
            rpn_bbox_outside_weights loss_box_weight
           \<longrightarrow> (\<exists>c r. rpn_cross_entropy rpn_cls_prob rpn_labels = Inr (Fin c)
                 \<and> rpn_loss_box rpn_bbox_pred rpn_bbox_targets rpn_bbox_inside_weights
                      rpn_bbox_outside_weights sigma [1] = Inr (Fin r)
                 \<and> rpn_loss rpn_cls_prob rpn_labels rpn_bbox_pred rpn_bbox_targets
                      rpn_bbox_inside_weights rpn_bbox_outside_weights sigma [1] loss_box_weight
                    = Inr (Fin (c + loss_box_weight * r))
                 \<and> 0 \<le> c \<and> 0 \<le> r \<and> 0 \<le> c + loss_box_weight * r))"
proof -
  let ?ce = "rpn_cross_entropy rpn_cls_prob rpn_labels"
  let ?box = "rpn_loss_box rpn_bbox_pred rpn_bbox_targets rpn_bbox_inside_weights
                rpn_bbox_outside_weights sigma [1]"
  let ?tot = "rpn_loss rpn_cls_prob rpn_labels rpn_bbox_pred rpn_bbox_targets
                rpn_bbox_inside_weights rpn_bbox_outside_weights sigma [1] loss_box_weight"
  from assms(4) have n: "0 < length rpn_labels"
    by (auto simp: list_ex_iff)
  from assms(10) have nz: "sigma \<noteq> 0" by simp
  from rpn_cross_entropy_valid [OF assms(1-4)] obtain es where
    es: "?ce = Inr (fmean (map Fin es))" "es \<noteq> []" "length es \<le> length rpn_labels"
      "\<forall>x\<in>set es. 0 \<le> x \<and> x \<le> 100"
    by blast
  have cpos: "0 \<le> c \<and> c \<le> 100" if "?ce = Inr (Fin c)" for c
  proof -
    from that es(1) have "fmean (map Fin es) = Fin c" by simp
    from fmean_Fin [OF this] obtain rs where
      rs: "map Fin es = map Fin rs" "c = sum_list rs / real (length rs)"
      by blast
    from rs(1) have "es = rs" by (simp add: inj_on_def inj_map_eq_map)
    then show ?thesis
      using average_bounds [OF es(2,4)] rs(2) by simp
  qed
  have rpos: "0 \<le> r" if "?box = Inr (Fin r)" for r
    using n nz assms(5-9) that by (rule rpn_loss_box_finite_nonneg)
  have one: "\<exists>c r. ?ce = Inr (Fin c) \<and> ?box = Inr (Fin r) \<and> v = c + loss_box_weight * r
               \<and> 0 \<le> c \<and> 0 \<le> r \<and> 0 \<le> v"
    if t: "?tot = Inr (Fin v)" for v
  proof -
    from t obtain cE bx where ce: "?ce = Inr cE" and bx: "?box = Inr bx"
        and s: "fadd cE (fmul (rnd32 loss_box_weight) bx) = Fin v"
      by (auto simp: rpn_loss_def split: sum.splits)
    from s obtain c u where c: "cE = Fin c" and u: "fmul (rnd32 loss_box_weight) bx = Fin u"
        and v: "v = c + u"
      by (auto simp: fadd_Fin_iff)
    from u obtain w r where w: "rnd32 loss_box_weight = Fin w" and r: "bx = Fin r"
        and u': "u = w * r"
      by (auto simp: fmul_Fin_iff)
    from w have w': "w = loss_box_weight" by (simp add: rnd32_Fin_iff)
    have c0: "0 \<le> c" using cpos ce c by simp
    have r0: "0 \<le> r" using rpos bx r by simp
    have "0 \<le> loss_box_weight * r" using assms(11) r0 by simp
    then have "0 \<le> v" using c0 by (simp add: v u' w')
    with ce c bx r v u' w' c0 r0 show ?thesis by simp
  qed
  have two: "\<exists>c r. ?ce = Inr (Fin c) \<and> ?box = Inr (Fin r)
               \<and> ?tot = Inr (Fin (c + loss_box_weight * r))
               \<and> 0 \<le> c \<and> 0 \<le> r \<and> 0 \<le> c + loss_box_weight * r"
    if b: "loss_bounded sigma rpn_labels rpn_bbox_pred rpn_bbox_targets
             rpn_bbox_inside_weights rpn_bbox_outside_weights loss_box_weight"
  proof -
    from b have sg: "1 / 2 ^ 8 \<le> sigma" "sigma \<le> 2 ^ 8"
      and n20: "length rpn_labels \<le> 2 ^ 20" and w20: "loss_box_weight \<le> 2 ^ 20"
      and bd: "list_all (\<lambda>x. \<bar>x\<bar> \<le> 2 ^ 30) rpn_bbox_pred"
        "list_all (\<lambda>x. \<bar>x\<bar> \<le> 2 ^ 30) rpn_bbox_targets"
        "list_all (\<lambda>x. \<bar>x\<bar> \<le> 1) rpn_bbox_inside_weights"
        "list_all (\<lambda>x. \<bar>x\<bar> \<le> 1) rpn_bbox_outside_weights"
      by (simp_all add: loss_bounded_def)
    have "real (length es) \<le> 2 ^ 20"
    proof -
      have "length es \<le> 2 ^ 20" using es(3) n20 by linarith
      then have "real (length es) \<le> real (2 ^ 20)" by (rule of_nat_mono)
      then show ?thesis by simp
    qed
    then have "real (length es) * 100 \<le> 2 ^ 20 * 100"
      by (intro mult_right_mono) simp_all
    also have "(2::real) ^ 20 * 100 < 2 ^ 127" by simp
    also have "\<dots> \<le> f32_overflow" by (rule f32_overflow_bounds)
    finally have fit: "real (length es) * 100 < f32_overflow" .
    have ab: "\<forall>x\<in>set es. \<bar>x\<bar> \<le> 100" using es(4) by (auto simp: abs_le_iff)
    let ?c = "sum_list es / real (length es)"
    have ce: "?ce = Inr (Fin ?c)"
      using fmean_bounded [OF es(2) ab fit] es(1) by simp
    note cb = cpos [OF ce]
    from rpn_loss_box_bounded [OF n n20 sg assms(5-8) bd] obtain r where
      r: "?box = Inr (Fin r)" "\<bar>r\<bar> \<le> 2 ^ 79"
      by blast
    have r0: "0 \<le> r" using rpos r(1) by simp
    have w: "rnd32 loss_box_weight = Fin loss_box_weight"
      using assms(11) w20 by (intro rnd32_120) simp
    have wr: "\<bar>loss_box_weight * r\<bar> \<le> 2 ^ 99"
    proof -
      have "\<bar>loss_box_weight\<bar> * \<bar>r\<bar> \<le> 2 ^ 20 * 2 ^ 79"
        using assms(11) w20 r(2) by (intro mult_mono) simp_all
      then show ?thesis by (simp add: abs_mult)
    qed
    have num99: "(2::real) ^ 99 \<le> 2 ^ 120" by simp
    have m: "rnd32 (loss_box_weight * r) = Fin (loss_box_weight * r)"
      using wr num99 by (intro rnd32_120) (rule order_trans)
    have num: "(100::real) + 2 ^ 99 \<le> 2 ^ 120" by simp
    have "\<bar>?c + loss_box_weight * r\<bar> \<le> 2 ^ 120"
      unfolding abs_le_iff using cb wr [unfolded abs_le_iff] num by linarith
    then have a: "rnd32 (?c + loss_box_weight * r) = Fin (?c + loss_box_weight * r)"
      by (rule rnd32_120)
    have t: "?tot = Inr (Fin (?c + loss_box_weight * r))"
      by (simp add: rpn_loss_def ce r(1) w m a)
    have "0 \<le> loss_box_weight * r" using assms(11) r0 by simp
    then have "0 \<le> ?c + loss_box_weight * r" using cb by simp
    with ce r(1) t cb r0 show ?thesis by blast
  qed
  from one two show ?thesis by blast
qed

theorem rpn_loss_total_nonneg_in_range_witness:
  "loss_bounded 1 [1, 0, - 1] [1, 2, 0, 0, 0, 0] [0, 0, 0, 0, 0, 0] [1, 1, 0, 0, 0, 0]
       [1 / 2, 1 / 2, 1 / 2, 1 / 2, 0, 0] 2
   \<and> rpn_cross_entropy [1, 0, 1 / 2] [1, 0, - 1] = Inr (Fin 0)
   \<and> rpn_loss_box [1, 2, 0, 0, 0, 0] [0, 0, 0, 0, 0, 0] [1, 1, 0, 0, 0, 0]
       [1 / 2, 1 / 2, 1 / 2, 1 / 2, 0, 0] 1 [1] = Inr (Fin (1 / 3))
   \<and> rpn_loss [1, 0, 1 / 2] [1, 0, - 1] [1, 2, 0, 0, 0, 0] [0, 0, 0, 0, 0, 0]
       [1, 1, 0, 0, 0, 0] [1 / 2, 1 / 2, 1 / 2, 1 / 2, 0, 0] 1 [1] 2 = Inr (Fin (2 / 3))"
proof -
  let ?ps = "[1, 0, 1 / 2 :: real]" and ?ls = "[1, 0, - 1 :: int]"
  let ?bp = "[1, 2, 0, 0, 0, 0 :: real]" and ?bt = "[0, 0, 0, 0, 0, 0 :: real]"
  let ?iw = "[1, 1, 0, 0, 0, 0 :: real]" and ?ow = "[1 / 2, 1 / 2, 1 / 2, 1 / 2, 0, 0 :: real]"
  let ?P = "[(1, 2), (0, 0), (0, 0)] :: row list" and ?T = "[(0, 0), (0, 0), (0, 0)] :: row list"
  let ?I = "[(1, 1), (0, 0), (0, 0)] :: row list"
  let ?W = "[(1 / 2, 1 / 2), (1 / 2, 1 / 2), (0, 0)] :: row list"
  have h: "length ?ps = length ?ls" "list_all (\<lambda>p. 0 \<le> p \<and> p \<le> 1) ?ps"
      "list_all (\<lambda>l. l = - 1 \<or> l = 0 \<or> l = 1) ?ls" "list_ex (\<lambda>l. l \<noteq> - 1) ?ls"
      "length ?bp = 2 * length ?ls" "length ?bt = 2 * length ?ls"
      "length ?iw = 2 * length ?ls" "length ?ow = 2 * length ?ls"
      "list_all (\<lambda>w. 0 \<le> w) ?ow" "(0::real) < 1" "(0::real) \<le> 2"
    by simp_all
  have b: "loss_bounded 1 ?ls ?bp ?bt ?iw ?ow 2"
    by (simp add: loss_bounded_def)
  have ce: "rpn_cross_entropy ?ps ?ls = Inr (Fin 0)"
    by (simp add: rpn_cross_entropy_def nonzero_not_ignore_def index_select_def
        binary_cross_entropy_def bce_elem_def clamped_log_def fmean_def fsum_def rnd32_def
        f32_overflow_def upt_conv_Cons)
  have "smooth_l1_loss ?P ?T ?I ?W 1 [1] = Inr (spec_regression_loss ?P ?T ?I ?W 1)"
    by (rule smooth_l1_loss_bounded) (simp_all add: box_bounded_def row_within_def)
  also have "spec_regression_loss ?P ?T ?I ?W 1 = Fin (1 / 3)"
    by (simp add: spec_regression_loss_def spec_anchor_def spec_channel_def spec_term_def
        average_def)
  finally have bx: "rpn_loss_box ?bp ?bt ?iw ?ow 1 [1] = Inr (Fin (1 / 3))"
    by (simp add: rpn_loss_box_def)
  from rpn_loss_total_nonneg_in_range [OF h] b obtain c r where
    "rpn_cross_entropy ?ps ?ls = Inr (Fin c)" "rpn_loss_box ?bp ?bt ?iw ?ow 1 [1] = Inr (Fin r)"
    "rpn_loss ?ps ?ls ?bp ?bt ?iw ?ow 1 [1] 2 = Inr (Fin (c + 2 * r))"
    by blast
  with ce bx have "rpn_loss ?ps ?ls ?bp ?bt ?iw ?ow 1 [1] 2 = Inr (Fin (2 / 3))"
    by simp
  with b ce bx show ?thesis by simp
qed

section \<open>Properties of the orchestrator\<close>

text \<open>
  C5. In train mode, for every input sequence whose batch dimension is not 1, \<open>forward\<close>
  ends with the assertion error \<open>batch_size=1 train only\<close>, whatever the backbone, the
  heads and the layers would do: none of them is reached, and no loss is computed.
\<close>

theorem forward_train_batch_not_one:
  assumes "mode self = ''train''" and "shape sequence = b # rest" and "b \<noteq> 1"
  shows "forward self sequence gt_boxes = Inl (AssertionError ''batch_size=1 train only'')"
  using assms by (simp add: forward_def check_batch_def size_first_def)

theorem forward_train_batch_not_one_witness:
  "forward
     \<lparr>mode = ''train'', backbone = Inr, rpn_net = Inr, rpn_cls_score_net = Inr,
      rpn_bbox_pred_net = Inr, proposal_layer = (\<lambda>p d n. Inr p),
      anchor_target_layer = (\<lambda>g n. Inr ([], [], [], []))\<rparr>
     \<lparr>shape = [2, 1, 3], elems = [0, 0, 0, 0, 0, 0]\<rparr> ()
   = Inl (AssertionError ''batch_size=1 train only'')"
  by (rule forward_train_batch_not_one [where b = 2 and rest = "[1, 3]"]) simp_all



section \<open>Properties of the constructor\<close>

lemma out_channels_unbound: "load_name ''out_channels'' = Inl (NameError ''out_channels'')"
  by (simp add: load_name_def init_params_def module_globals_def py_builtins_def)

lemma imported_names_bound:
  "load_name ''nn'' = Inr ()" "load_name ''DepthSeparableConv1d'' = Inr ()"
  by (simp_all add: load_name_def init_params_def module_globals_def)

lemma rpn_net_names_fail: "rpn_net_names = Inl (NameError ''out_channels'')"
  by (simp add: rpn_net_names_def imported_names_bound out_channels_unbound)

text \<open>
  C8. As stated (an undefined-name error for every choice of constructor arguments), the
  claim fails when a statement before the \<open>rpn_net\<close> layer raises first: with
  \<^verbatim>\<open>load_backbone=True\<close> and a \<^verbatim>\<open>backbone_path\<close> that names no file, \<^verbatim>\<open>torch.load\<close> at line 33
  raises \<open>FileNotFoundError\<close>, and that is the exception of the constructor; the name
  \<open>out_channels\<close> is never evaluated.
\<close>

theorem init_other_error_counterexample:
  "init
     \<lparr>deepcopy = Inr,
      load_weights = (\<lambda>m path dev. if path = [] then Inl FileNotFoundError else Inr m),
      generate_anchors_1d = Inr ([1, 2, 3 :: real], 3),
      to_device = (\<lambda>a dev. Inr a),
      build_layers = (\<lambda>args m a n. Inr (m, a, n))\<rparr>
     \<lparr>arg_model = (), arg_load_backbone = True, arg_backbone_path = [],
      arg_rpn_channels = 16, arg_rpn_kernel_size = 3, arg_pre_nms_topN = 6000,
      arg_nms_threshold = 7 / 10, arg_post_nms_topN = 300, arg_device = ''cpu'',
      arg_mode = ''train''\<rparr>
   = (Inl FileNotFoundError :: error + unit \<times> real list \<times> nat)
   \<and> (Inl FileNotFoundError :: error + unit \<times> real list \<times> nat)
       \<noteq> Inl (NameError ''out_channels'')"
  by (simp add: init_def init_prefix_def)

text \<open>
  C8, amended. For every choice of constructor arguments (and whatever the calls outside
  the file do), constructing the model never yields an instance, so \<open>forward\<close> is
  unreachable: the name \<open>out_channels\<close> is bound neither in the function nor in the module
  nor among the builtins, so building the \<open>rpn_net\<close> layer raises \<open>NameError\<close>; this is the
  exception of the constructor whenever the statements before that layer (lines 28 to 39)
  complete, and otherwise the exception of the statement that failed is.
\<close>

theorem init_never_constructs:
  "(\<forall>inst. init env args \<noteq> Inr inst)
   \<and> rpn_net_names = Inl (NameError ''out_channels'')
   \<and> init env args
       = (case init_prefix env args of
            Inl e \<Rightarrow> Inl e
          | Inr st \<Rightarrow> Inl (NameError ''out_channels''))"
proof -
  have eq: "init env args
       = (case init_prefix env args of
            Inl e \<Rightarrow> Inl e
          | Inr st \<Rightarrow> Inl (NameError ''out_channels''))"
    by (simp add: init_def rpn_net_names_fail split: sum.splits prod.splits)
  then have "init env args \<noteq> Inr inst" for inst
    by (simp split: sum.splits)
  with eq rpn_net_names_fail show ?thesis by blast
qed

theorem init_never_constructs_witness:
  "init_prefix
     \<lparr>deepcopy = Inr,
      load_weights = (\<lambda>m path dev. if path = [] then Inl FileNotFoundError else Inr m),
      generate_anchors_1d = Inr ([1, 2, 3 :: real], 3),
      to_device = (\<lambda>a dev. Inr a),
      build_layers = (\<lambda>args m a n. Inr (m, a, n))\<rparr>
     \<lparr>arg_model = (), arg_load_backbone = False, arg_backbone_path = [],
      arg_rpn_channels = 16, arg_rpn_kernel_size = 3, arg_pre_nms_topN = 6000,
      arg_nms_threshold = 7 / 10, arg_post_nms_topN = 300, arg_device = ''cpu'',
      arg_mode = ''train''\<rparr>
   = Inr ((), [1, 2, 3], 3)
   \<and> init
     \<lparr>deepcopy = Inr,
      load_weights = (\<lambda>m path dev. if path = [] then Inl FileNotFoundError else Inr m),
      generate_anchors_1d = Inr ([1, 2, 3 :: real], 3),
      to_device = (\<lambda>a dev. Inr a),
      build_layers = (\<lambda>args m a n. Inr (m, a, n))\<rparr>
     \<lparr>arg_model = (), arg_load_backbone = False, arg_backbone_path = [],
      arg_rpn_channels = 16, arg_rpn_kernel_size = 3, arg_pre_nms_topN = 6000,
      arg_nms_threshold = 7 / 10, arg_post_nms_topN = 300, arg_device = ''cpu'',
      arg_mode = ''train''\<rparr>
   = (Inl (NameError ''out_channels'') :: error + unit \<times> real list \<times> nat)"
proof -
  let ?env = "\<lparr>deepcopy = Inr,
      load_weights = (\<lambda>m path dev. if path = [] then Inl FileNotFoundError else Inr m),
      generate_anchors_1d = Inr ([1, 2, 3 :: real], 3),
      to_device = (\<lambda>a dev. Inr a),
      build_layers = (\<lambda>args m a n. Inr (m, a, n))\<rparr>
      :: (unit, real list, unit \<times> real list \<times> nat) init_env"
  let ?args = "\<lparr>arg_model = (), arg_load_backbone = False, arg_backbone_path = [],
      arg_rpn_channels = 16, arg_rpn_kernel_size = 3, arg_pre_nms_topN = 6000,
      arg_nms_threshold = 7 / 10, arg_post_nms_topN = 300, arg_device = ''cpu'',
      arg_mode = ''train''\<rparr>"
  have a: "init_prefix ?env ?args = Inr ((), [1, 2, 3], 3)"
    by (simp add: init_prefix_def)
  from init_never_constructs [of ?env ?args] a
  have "init ?env ?args = Inl (NameError ''out_channels'')" by simp
  with a show ?thesis by simp
qed

end
